theory Spec2Isabelle
  imports Complex_Main
begin

section \<open>Errors, arrays and the process-wide state\<close>

text \<open>
  The module \<open>MixtureDistributions.py\<close> raises two kinds of error in its own statements:
  the generic \<open>Exception\<close> of the shape validations, and the \<open>UnboundLocalError\<close> that
  Python raises when a local name is read before it has been assigned. Every other error
  is raised inside a library call and passes through the module unchanged.
\<close>

datatype lib_error = ValueError | IndexError | TypeError | LinAlgError

datatype error =
    UnboundLocalError string
  | Exception string
  | Library lib_error

fun own_error :: "error \<Rightarrow> bool" where
  "own_error (UnboundLocalError v) = True"
| "own_error (Exception m) = True"
| "own_error (Library e) = False"

definition from_lib :: "lib_error + 'a \<Rightarrow> error + 'a" where
  "from_lib r = (case r of Inl e \<Rightarrow> Inl (Library e) | Inr x \<Rightarrow> Inr x)"

text \<open>
  A numpy array is its shape and its entries in row-major order. The entries are taken
  as exact reals: rounding of the 64-bit floats is not part of the model.
\<close>

record ndarray =
  shape :: "nat list"
  data :: "real list"

definition wf_array :: "ndarray \<Rightarrow> bool" where
  "wf_array a = (length (data a) = prod_list (shape a))"

text \<open>
  The state shared by the whole process: the environment, the seed of the deep-learning
  framework, the state of numpy's global generator and the seed of Python's \<open>random\<close>.
  The source never draws from the first, second and last of these, so the last seed
  written is all that is kept of them.
\<close>

record 'g globals =
  environ :: "string \<Rightarrow> string option"
  tf_seed :: "int option"
  np_rng :: 'g
  py_seed :: "int option"

text \<open>
  What the numeric libraries compute is not in the repository; it is a parameter:
  the generator state that \<open>np.random.seed\<close> installs, one uniform draw with the
  successor state, sklearn's \<open>make_spd_matrix\<close> (it is handed the global generator;
  that it neither reads nor advances it when given an integer seed is a contract, stated
  where it is used), \<open>np.linalg.inv\<close> and \<open>np.linalg.eigvals\<close>, whose result is
  complex in general.
\<close>

record 'g library =
  seed_state :: "int \<Rightarrow> 'g"
  uniform :: "'g \<Rightarrow> real \<times> 'g"
  make_spd_matrix :: "int \<Rightarrow> int \<Rightarrow> 'g \<Rightarrow> (lib_error + ndarray) \<times> 'g"
  linalg_inv :: "ndarray \<Rightarrow> lib_error + ndarray"
  linalg_eigvals :: "ndarray \<Rightarrow> lib_error + complex list"

text \<open>Statements run in sequence on the global state; an exception ends the sequence and
  keeps the state reached so far.\<close>

type_synonym ('a, 'g) prog = "'g globals \<Rightarrow> (error + 'a) \<times> 'g globals"

definition seq :: "('a, 'g) prog \<Rightarrow> ('a \<Rightarrow> ('b, 'g) prog) \<Rightarrow> ('b, 'g) prog" where
  "seq m f = (\<lambda>s. case m s of (Inl e, s1) \<Rightarrow> (Inl e, s1) | (Inr x, s1) \<Rightarrow> f x s1)"

definition ret :: "'a \<Rightarrow> ('a, 'g) prog" where
  "ret x = (\<lambda>s. (Inr x, s))"

definition lift :: "error + 'a \<Rightarrow> ('a, 'g) prog" where
  "lift r = (\<lambda>s. (r, s))"

section \<open>Deterministic seeding\<close>

definition digit_char :: "nat \<Rightarrow> char" where
  "digit_char n = char_of (48 + n)"

fun str_nat :: "nat \<Rightarrow> string" where
  "str_nat n = (if n < 10 then [digit_char n] else str_nat (n div 10) @ [digit_char (n mod 10)])"

declare str_nat.simps [simp del]

definition str_int :: "int \<Rightarrow> string" where
  "str_int i = (if i < 0 then CHR ''-'' # str_nat (nat (- i)) else str_nat (nat i))"

text \<open>\<open>np.random.seed\<close> accepts the integers from 0 to \<open>2**32 - 1\<close> and raises
  \<open>ValueError\<close> on any other. The environment assignment, \<open>tf.random.set_seed\<close> and
  \<open>random.seed\<close> are taken to accept every integer.\<close>

definition np_random_seed :: "'g library \<Rightarrow> int \<Rightarrow> (unit, 'g) prog" where
  "np_random_seed lib seed = (\<lambda>s.
     if 0 \<le> seed \<and> seed < 2 ^ 32 then (Inr (), s\<lparr>np_rng := seed_state lib seed\<rparr>)
     else (Inl (Library ValueError), s))"

definition reset_random_seeds :: "'g library \<Rightarrow> int \<Rightarrow> (unit, 'g) prog" where
  "reset_random_seeds lib seed =
     seq (\<lambda>s. (Inr (), s\<lparr>environ := (environ s)(''PYTHONHASHSEED'' \<mapsto> str_int seed)\<rparr>)) (\<lambda>_.
     seq (\<lambda>s. (Inr (), s\<lparr>tf_seed := Some seed\<rparr>)) (\<lambda>_.
     seq (np_random_seed lib seed) (\<lambda>_.
     (\<lambda>s. (Inr (), s\<lparr>py_seed := Some seed\<rparr>)))))"

section \<open>Drawing parameter arrays\<close>

fun draws :: "('g \<Rightarrow> real \<times> 'g) \<Rightarrow> nat \<Rightarrow> 'g \<Rightarrow> real list \<times> 'g" where
  "draws u 0 g = ([], g)"
| "draws u (Suc k) g =
     (case u g of (x, g1) \<Rightarrow> (case draws u k g1 of (xs, g2) \<Rightarrow> (x # xs, g2)))"

text \<open>\<open>np.random.sample(size)\<close>: an array of the given shape, filled in row-major order
  from the global generator; a negative dimension is a \<open>ValueError\<close>.\<close>

definition np_random_sample :: "'g library \<Rightarrow> int list \<Rightarrow> (ndarray, 'g) prog" where
  "np_random_sample lib dims = (\<lambda>s.
     if list_ex (\<lambda>d. d < 0) dims then (Inl (Library ValueError), s)
     else (case draws (uniform lib) (prod_list (map nat dims)) (np_rng s) of
             (xs, g) \<Rightarrow> (Inr \<lparr>shape = map nat dims, data = xs\<rparr>, s\<lparr>np_rng := g\<rparr>)))"

definition times_scalar :: "ndarray \<Rightarrow> real \<Rightarrow> ndarray" where
  "times_scalar a c = a\<lparr>data := map (\<lambda>x. x * c) (data a)\<rparr>"

text \<open>\<open>a[i]\<close> for a non-negative integer \<open>i\<close>: the \<open>i\<close>-th slice along the first axis.\<close>

definition getitem :: "ndarray \<Rightarrow> nat \<Rightarrow> lib_error + ndarray" where
  "getitem a i =
     (case shape a of
        [] \<Rightarrow> Inl IndexError
      | n # rest \<Rightarrow>
          if i < n
          then Inr \<lparr>shape = rest,
                    data = take (prod_list rest) (drop (i * prod_list rest) (data a))\<rparr>
          else Inl IndexError)"

text \<open>The three arrays every constructor draws right after resetting the seeds.\<close>

record params =
  loc :: ndarray
  scale :: ndarray
  probs :: ndarray

text \<open>Lines 55-58 of \<open>MixNormal1\<close>, repeated at 130-133 in \<open>MixNormal1_indep\<close>: the
  weights have one row per dimension.\<close>

definition params_per_dimension :: "'g library \<Rightarrow> int \<Rightarrow> int \<Rightarrow> int \<Rightarrow> (params, 'g) prog" where
  "params_per_dimension lib n_components n_dimensions seed =
     seq (reset_random_seeds lib seed) (\<lambda>_.
     seq (np_random_sample lib [n_components, n_dimensions]) (\<lambda>l.
     seq (np_random_sample lib [n_components, n_dimensions]) (\<lambda>sc.
     seq (np_random_sample lib [n_dimensions, n_components]) (\<lambda>p.
     ret \<lparr>loc = times_scalar l 10, scale = sc, probs = p\<rparr>))))"

text \<open>Lines 94-97 of \<open>MixNormal2\<close>, repeated in \<open>MixNormal2_indep\<close> and in the four
  \<open>MixMultiNormal\<close> constructors: one weight per component.\<close>

definition params_shared :: "'g library \<Rightarrow> int \<Rightarrow> int \<Rightarrow> int \<Rightarrow> (params, 'g) prog" where
  "params_shared lib n_components n_dimensions seed =
     seq (reset_random_seeds lib seed) (\<lambda>_.
     seq (np_random_sample lib [n_components, n_dimensions]) (\<lambda>l.
     seq (np_random_sample lib [n_components, n_dimensions]) (\<lambda>sc.
     seq (np_random_sample lib [n_components]) (\<lambda>p.
     ret \<lparr>loc = times_scalar l 10, scale = sc, probs = p\<rparr>))))"

section \<open>The mixture constructors\<close>

text \<open>The distribution objects of the statistics library are kept as terms: what the
  library does with them (validation, sampling, densities) is outside the repository.\<close>

datatype distribution =
    Normal ndarray ndarray
  | MultivariateNormalDiag ndarray ndarray
  | Categorical ndarray
  | Mixture distribution "distribution list" bool
  | MixtureSameFamily distribution distribution bool
  | Independent distribution nat

text \<open>
  The loop \<open>for i in range(n_components): components.append(mk(loc[i], scale[i]))\<close>.
  The local \<open>components\<close> is \<open>None\<close> while it has no value: Python looks the name up
  before it evaluates the arguments of \<open>append\<close>, and raises \<open>UnboundLocalError\<close> then.
\<close>

fun append_components ::
  "(ndarray \<Rightarrow> ndarray \<Rightarrow> distribution) \<Rightarrow> ndarray \<Rightarrow> ndarray \<Rightarrow> nat list \<Rightarrow>
   distribution list option \<Rightarrow> error + distribution list option" where
  "append_components mk l sc [] components = Inr components"
| "append_components mk l sc (i # is) components =
     (case components of
        None \<Rightarrow> Inl (UnboundLocalError ''components'')
      | Some cs \<Rightarrow>
          (case getitem l i of
             Inl e \<Rightarrow> Inl (Library e)
           | Inr li \<Rightarrow>
               (case getitem sc i of
                  Inl e \<Rightarrow> Inl (Library e)
                | Inr si \<Rightarrow> append_components mk l sc is (Some (cs @ [mk li si])))))"

definition range_py :: "int \<Rightarrow> nat list" where
  "range_py n = [0 ..< nat n]"

definition read_local :: "string \<Rightarrow> 'a option \<Rightarrow> error + 'a" where
  "read_local name v = (case v of None \<Rightarrow> Inl (UnboundLocalError name) | Some x \<Rightarrow> Inr x)"

definition MixNormal1 :: "'g library \<Rightarrow> int \<Rightarrow> int \<Rightarrow> int \<Rightarrow> (distribution, 'g) prog" where
  "MixNormal1 lib n_components n_dimensions seed =
     seq (params_per_dimension lib n_components n_dimensions seed) (\<lambda>p.
     seq (lift (append_components Normal (loc p) (scale p) (range_py n_components) (Some []))) (\<lambda>components.
     seq (lift (read_local ''components'' components)) (\<lambda>cs.
     ret (Mixture (Categorical (probs p)) cs True))))"

definition MixNormal2 :: "'g library \<Rightarrow> int \<Rightarrow> int \<Rightarrow> int \<Rightarrow> (distribution, 'g) prog" where
  "MixNormal2 lib n_components n_dimensions seed =
     seq (params_shared lib n_components n_dimensions seed) (\<lambda>p.
     ret (MixtureSameFamily (Categorical (probs p)) (Normal (loc p) (scale p)) True))"

definition MixNormal1_indep :: "'g library \<Rightarrow> int \<Rightarrow> int \<Rightarrow> int \<Rightarrow> (distribution, 'g) prog" where
  "MixNormal1_indep lib n_components n_dimensions seed =
     seq (params_per_dimension lib n_components n_dimensions seed) (\<lambda>p.
     seq (lift (append_components Normal (loc p) (scale p) (range_py n_components) (Some []))) (\<lambda>components.
     seq (lift (read_local ''components'' components)) (\<lambda>cs.
     ret (Independent (Mixture (Categorical (probs p)) cs True) 0))))"

definition MixNormal2_indep :: "'g library \<Rightarrow> int \<Rightarrow> int \<Rightarrow> int \<Rightarrow> (distribution, 'g) prog" where
  "MixNormal2_indep lib n_components n_dimensions seed =
     seq (params_shared lib n_components n_dimensions seed) (\<lambda>p.
     ret (Independent
            (MixtureSameFamily (Categorical (probs p)) (Normal (loc p) (scale p)) True) 0))"

definition MixMultiNormal1 :: "'g library \<Rightarrow> int \<Rightarrow> int \<Rightarrow> int \<Rightarrow> (distribution, 'g) prog" where
  "MixMultiNormal1 lib n_components n_dimensions seed =
     seq (params_shared lib n_components n_dimensions seed) (\<lambda>p.
     seq (lift (append_components MultivariateNormalDiag (loc p) (scale p)
                  (range_py n_components) (Some []))) (\<lambda>components.
     seq (lift (read_local ''components'' components)) (\<lambda>cs.
     ret (Mixture (Categorical (probs p)) cs True))))"

definition MixMultiNormal2 :: "'g library \<Rightarrow> int \<Rightarrow> int \<Rightarrow> int \<Rightarrow> (distribution, 'g) prog" where
  "MixMultiNormal2 lib n_components n_dimensions seed =
     seq (params_shared lib n_components n_dimensions seed) (\<lambda>p.
     ret (MixtureSameFamily (Categorical (probs p))
            (MultivariateNormalDiag (loc p) (scale p)) True))"

text \<open>Line 286 of \<open>MixMultiNormal1_indep\<close> only annotates \<open>components\<close> and assigns
  nothing to it: the loop starts from the unbound local.\<close>

definition MixMultiNormal1_indep :: "'g library \<Rightarrow> int \<Rightarrow> int \<Rightarrow> int \<Rightarrow> (distribution, 'g) prog" where
  "MixMultiNormal1_indep lib n_components n_dimensions seed =
     seq (params_shared lib n_components n_dimensions seed) (\<lambda>p.
     seq (lift (append_components MultivariateNormalDiag (loc p) (scale p)
                  (range_py n_components) None)) (\<lambda>components.
     seq (lift (read_local ''components'' components)) (\<lambda>cs.
     ret (Independent (Mixture (Categorical (probs p)) cs True) 0))))"

definition MixMultiNormal2_indep :: "'g library \<Rightarrow> int \<Rightarrow> int \<Rightarrow> int \<Rightarrow> (distribution, 'g) prog" where
  "MixMultiNormal2_indep lib n_components n_dimensions seed =
     seq (params_shared lib n_components n_dimensions seed) (\<lambda>p.
     ret (Independent
            (MixtureSameFamily (Categorical (probs p))
               (MultivariateNormalDiag (loc p) (scale p)) True) 0))"

definition MixtureGaussian :: "'g library \<Rightarrow> int \<Rightarrow> int \<Rightarrow> int \<Rightarrow> (distribution, 'g) prog" where
  "MixtureGaussian lib ncomp ndims seed = MixMultiNormal1 lib ncomp ndims seed"

section \<open>Linear-algebra utilities\<close>

text \<open>Two-dimensional arrays are built entry by entry and read by row and column.\<close>

definition matrix_of :: "nat \<Rightarrow> nat \<Rightarrow> (nat \<Rightarrow> nat \<Rightarrow> real) \<Rightarrow> ndarray" where
  "matrix_of n m f = \<lparr>shape = [n, m], data = map (\<lambda>k. f (k div m) (k mod m)) [0 ..< n * m]\<rparr>"

definition vector_of :: "nat \<Rightarrow> (nat \<Rightarrow> real) \<Rightarrow> ndarray" where
  "vector_of n f = \<lparr>shape = [n], data = map f [0 ..< n]\<rparr>"

definition at2 :: "ndarray \<Rightarrow> nat \<Rightarrow> nat \<Rightarrow> real" where
  "at2 a i j = data a ! (i * (shape a ! 1) + j)"

definition dot_sum :: "nat \<Rightarrow> (nat \<Rightarrow> real) \<Rightarrow> real" where
  "dot_sum k f = sum_list (map f [0 ..< k])"

text \<open>
  \<open>np.dot(a, b)\<close> for a two-dimensional \<open>b\<close>, the only case the module reaches (both
  callers have validated \<open>b\<close> before): a scalar \<open>a\<close> scales \<open>b\<close>; otherwise the last axis
  of \<open>a\<close> is summed against the first axis of \<open>b\<close>, and a mismatch of the two is a
  \<open>ValueError\<close>. For any other \<open>b\<close> the model answers \<open>ValueError\<close>.
\<close>

definition np_dot :: "ndarray \<Rightarrow> ndarray \<Rightarrow> lib_error + ndarray" where
  "np_dot a b =
     (case shape b of
        [k', m] \<Rightarrow>
          (if shape a = [] then Inr (b\<lparr>data := map (\<lambda>x. hd (data a) * x) (data b)\<rparr>)
           else if last (shape a) \<noteq> k' then Inl ValueError
           else Inr \<lparr>shape = butlast (shape a) @ [m],
                     data = map (\<lambda>idx. dot_sum k'
                                   (\<lambda>l. data a ! ((idx div m) * k' + l) * at2 b l (idx mod m)))
                              [0 ..< prod_list (butlast (shape a)) * m]\<rparr>)
      | _ \<Rightarrow> Inl ValueError)"

text \<open>\<open>np.transpose\<close> swaps the axes of a two-dimensional array and leaves arrays of
  fewer dimensions as they are; the module applies it to a validated 2D array only.\<close>

definition np_transpose :: "ndarray \<Rightarrow> ndarray" where
  "np_transpose a =
     (case shape a of
        [n, m] \<Rightarrow> matrix_of m n (\<lambda>i j. at2 a j i)
      | _ \<Rightarrow> a)"

definition transform_data :: "ndarray \<Rightarrow> ndarray \<Rightarrow> error + ndarray" where
  "transform_data dat rotation =
     (if length (shape rotation) \<noteq> 2 then Inl (Exception ''Rottion matrix must be a 2D matrix.'')
      else if shape rotation ! 0 \<noteq> shape rotation ! 1
        then Inl (Exception ''Rotation matrix must be square.'')
      else from_lib (np_dot dat rotation))"

definition inverse_transform_data :: "ndarray \<Rightarrow> ndarray \<Rightarrow> error + ndarray" where
  "inverse_transform_data dat rotation =
     (if length (shape rotation) \<noteq> 2 then Inl (Exception ''Rottion matrix must be a 2D matrix.'')
      else if shape rotation ! 0 \<noteq> shape rotation ! 1
        then Inl (Exception ''Rotation matrix must be square.'')
      else from_lib (np_dot dat (np_transpose rotation)))"

definition identity :: "nat \<Rightarrow> ndarray" where
  "identity n = matrix_of n n (\<lambda>i j. if i = j then 1 else 0)"

section \<open>Random correlation and covariance matrices\<close>

text \<open>\<open>np.diag\<close>: the diagonal matrix of a vector, the diagonal of a matrix, and a
  \<open>ValueError\<close> for any other number of dimensions.\<close>

definition np_diag :: "ndarray \<Rightarrow> lib_error + ndarray" where
  "np_diag a =
     (case shape a of
        [n] \<Rightarrow> Inr (matrix_of n n (\<lambda>i j. if i = j then data a ! i else 0))
      | [n, m] \<Rightarrow> Inr (vector_of (min n m) (\<lambda>i. at2 a i i))
      | _ \<Rightarrow> Inl ValueError)"

text \<open>\<open>np.sqrt\<close>, entry by entry. (On a negative entry numpy gives \<open>nan\<close>, which no real
  stands for; the properties below are about arrays without negative entries.)\<close>

definition np_sqrt :: "ndarray \<Rightarrow> ndarray" where
  "np_sqrt a = a\<lparr>data := map sqrt (data a)\<rparr>"

text \<open>
  \<open>np.matmul\<close> on vectors and matrices: matrix product, vector-matrix and matrix-vector
  product, inner product; a scalar operand or mismatched inner dimensions are a
  \<open>ValueError\<close>. Stacks of matrices (more than two dimensions) do not arise in the module;
  the model answers \<open>ValueError\<close> for them.
\<close>

definition np_matmul :: "ndarray \<Rightarrow> ndarray \<Rightarrow> lib_error + ndarray" where
  "np_matmul a b =
     (case (shape a, shape b) of
        ([n, k], [k', m]) \<Rightarrow>
          if k = k' then Inr (matrix_of n m (\<lambda>i j. dot_sum k (\<lambda>l. at2 a i l * at2 b l j)))
          else Inl ValueError
      | ([k], [k', m]) \<Rightarrow>
          if k = k' then Inr (vector_of m (\<lambda>j. dot_sum k (\<lambda>l. data a ! l * at2 b l j)))
          else Inl ValueError
      | ([n, k], [k']) \<Rightarrow>
          if k = k' then Inr (vector_of n (\<lambda>i. dot_sum k (\<lambda>l. at2 a i l * data b ! l)))
          else Inl ValueError
      | ([k], [k']) \<Rightarrow>
          if k = k' then Inr \<lparr>shape = [], data = [dot_sum k (\<lambda>l. data a ! l * data b ! l)]\<rparr>
          else Inl ValueError
      | _ \<Rightarrow> Inl ValueError)"

definition call_make_spd_matrix :: "'g library \<Rightarrow> int \<Rightarrow> int \<Rightarrow> (ndarray, 'g) prog" where
  "call_make_spd_matrix lib n random_state = (\<lambda>s.
     case make_spd_matrix lib n random_state (np_rng s) of (r, g) \<Rightarrow> (from_lib r, s\<lparr>np_rng := g\<rparr>))"

text \<open>Line 431, \<open>D = np.sqrt(np.diag(np.diag(V)))\<close>, and line 433,
  \<open>Vnorm = np.matmul(np.matmul(Dinv, V), Dinv)\<close>.\<close>

definition sqrt_diagonal :: "ndarray \<Rightarrow> lib_error + ndarray" where
  "sqrt_diagonal V =
     (case np_diag V of
        Inl e \<Rightarrow> Inl e
      | Inr d \<Rightarrow> (case np_diag d of Inl e \<Rightarrow> Inl e | Inr dd \<Rightarrow> Inr (np_sqrt dd)))"

definition sandwich :: "ndarray \<Rightarrow> ndarray \<Rightarrow> lib_error + ndarray" where
  "sandwich A B =
     (case np_matmul A B of Inl e \<Rightarrow> Inl e | Inr t \<Rightarrow> np_matmul t A)"

definition RandCorr :: "'g library \<Rightarrow> int \<Rightarrow> int \<Rightarrow> (ndarray, 'g) prog" where
  "RandCorr lib matrixSize seed =
     seq (np_random_seed lib 0) (\<lambda>_.
     seq (call_make_spd_matrix lib matrixSize seed) (\<lambda>V.
     seq (lift (from_lib (sqrt_diagonal V))) (\<lambda>D.
     seq (lift (from_lib (linalg_inv lib D))) (\<lambda>Dinv.
     lift (from_lib (sandwich Dinv V))))))"

text \<open>
  \<open>np.linalg.eigvals(x) > 0\<close>: the eigenvalues of a real matrix that is not symmetric
  can be complex, and numpy orders complex numbers lexicographically, real part first.
  On real eigenvalues this is the usual order. \<open>np.all\<close> of an empty array is true.
\<close>

definition gt_zero :: "complex \<Rightarrow> bool" where
  "gt_zero z = (0 < Re z \<or> (Re z = 0 \<and> 0 < Im z))"

definition is_pos_def :: "'g library \<Rightarrow> ndarray \<Rightarrow> error + bool" where
  "is_pos_def lib x =
     (if length (shape x) \<noteq> 2
        then Inl (Exception ''Input to is_pos_def must be a 2-dimensional array.'')
      else if shape x ! 0 \<noteq> shape x ! 1
        then Inl (Exception ''Input to is_pos_def must be a square matrix.'')
      else (case linalg_eigvals lib x of
              Inl e \<Rightarrow> Inl (Library e)
            | Inr ev \<Rightarrow> Inr (list_all gt_zero ev)))"

text \<open>\<open>len(a)\<close>: the first dimension; a \<open>TypeError\<close> for a zero-dimensional array.\<close>

definition py_len :: "ndarray \<Rightarrow> lib_error + nat" where
  "py_len a = (case shape a of [] \<Rightarrow> Inl TypeError | n # rest \<Rightarrow> Inr n)"

definition RandCov :: "'g library \<Rightarrow> ndarray \<Rightarrow> int \<Rightarrow> (ndarray, 'g) prog" where
  "RandCov lib std seed =
     seq (lift (from_lib (py_len std))) (\<lambda>matrixSize.
     seq (RandCorr lib (int matrixSize) seed) (\<lambda>corr.
     seq (lift (from_lib (np_diag std))) (\<lambda>D.
     lift (from_lib (sandwich D corr)))))"

section \<open>Properties of matrices used in the statements\<close>

definition square_matrix :: "nat \<Rightarrow> ndarray \<Rightarrow> bool" where
  "square_matrix n a = (shape a = [n, n] \<and> wf_array a)"

definition symmetric :: "nat \<Rightarrow> ndarray \<Rightarrow> bool" where
  "symmetric n a = (\<forall>i<n. \<forall>j<n. at2 a i j = at2 a j i)"

definition unit_diagonal :: "nat \<Rightarrow> ndarray \<Rightarrow> bool" where
  "unit_diagonal n a = (\<forall>i<n. at2 a i i = 1)"

text \<open>A rotation matrix is orthonormal: its product with its transpose, on either side,
  is the identity.\<close>

definition orthonormal :: "nat \<Rightarrow> ndarray \<Rightarrow> bool" where
  "orthonormal n r =
     (square_matrix n r \<and>
      np_matmul r (np_transpose r) = Inr (identity n) \<and>
      np_matmul (np_transpose r) r = Inr (identity n))"

definition quad_form :: "nat \<Rightarrow> ndarray \<Rightarrow> (nat \<Rightarrow> real) \<Rightarrow> real" where
  "quad_form n a x = (\<Sum>i<n. \<Sum>j<n. x i * at2 a i j * x j)"

definition positive_definite :: "nat \<Rightarrow> ndarray \<Rightarrow> bool" where
  "positive_definite n a = (\<forall>x. (\<exists>i<n. x i \<noteq> 0) \<longrightarrow> 0 < quad_form n a x)"

text \<open>\<open>lam\<close> is an eigenvalue of \<open>a\<close> with eigenvector \<open>x\<close>. A symmetric real matrix has
  real eigenvalues only, so real eigenpairs are all there are for the matrices below.\<close>

definition eigenpair :: "nat \<Rightarrow> ndarray \<Rightarrow> real \<Rightarrow> (nat \<Rightarrow> real) \<Rightarrow> bool" where
  "eigenpair n a lam x =
     ((\<exists>i<n. x i \<noteq> 0) \<and> (\<forall>i<n. (\<Sum>j<n. at2 a i j * x j) = lam * x i))"

text \<open>\<open>z\<close> is an eigenvalue of the real matrix \<open>a\<close>, over the complex numbers.\<close>

definition eigenvalue :: "nat \<Rightarrow> ndarray \<Rightarrow> complex \<Rightarrow> bool" where
  "eigenvalue n a z =
     (\<exists>v :: nat \<Rightarrow> complex.
        (\<exists>i<n. v i \<noteq> 0) \<and> (\<forall>i<n. (\<Sum>j<n. of_real (at2 a i j) * v j) = z * v i))"

section \<open>A small library instance for concrete runs\<close>

text \<open>
  A counter as generator state, drawing one of \<open>1/8, ..., 7/8\<close>; an SPD generator with
  4 on the diagonal whose off-diagonal entry depends on its seed only, and which neither
  reads nor advances the global generator; the inverse of a diagonal matrix; the
  eigenvalues of a matrix of size at most 2, by the quadratic formula (larger matrices
  are beyond this instance, which answers \<open>LinAlgError\<close> for them).
\<close>

definition counter_uniform :: "nat \<Rightarrow> real \<times> nat" where
  "counter_uniform g = ((real (g mod 7) + 1) / 8, Suc g)"

definition four_diagonal :: "nat \<Rightarrow> real \<Rightarrow> ndarray" where
  "four_diagonal m c = matrix_of m m (\<lambda>i j. if i = j then 4 else c)"

definition small_spd :: "int \<Rightarrow> int \<Rightarrow> nat \<Rightarrow> (lib_error + ndarray) \<times> nat" where
  "small_spd n random_state g =
     (if n < 0 then (Inl ValueError, g)
      else (Inr (four_diagonal (nat n) (real_of_int (random_state mod 2))), g))"

definition diagonal_inv :: "ndarray \<Rightarrow> lib_error + ndarray" where
  "diagonal_inv a =
     (case shape a of
        [n, m] \<Rightarrow>
          if n = m \<and> list_all (\<lambda>i. at2 a i i \<noteq> 0) [0 ..< n]
          then Inr (matrix_of n n (\<lambda>i j. if i = j then 1 / at2 a i i else 0))
          else Inl LinAlgError
      | _ \<Rightarrow> Inl LinAlgError)"

definition quadratic_eigvals :: "real \<Rightarrow> real \<Rightarrow> real \<Rightarrow> real \<Rightarrow> complex list" where
  "quadratic_eigvals a b c d =
     (let tr = a + d; disc = tr * tr - 4 * (a * d - b * c)
      in if 0 \<le> disc
         then [Complex ((tr + sqrt disc) / 2) 0, Complex ((tr - sqrt disc) / 2) 0]
         else [Complex (tr / 2) (sqrt (- disc) / 2), Complex (tr / 2) (- (sqrt (- disc) / 2))])"

definition small_eigvals :: "ndarray \<Rightarrow> lib_error + complex list" where
  "small_eigvals a =
     (if shape a = [0, 0] then Inr []
      else if shape a = [1, 1] then Inr [Complex (at2 a 0 0) 0]
      else if shape a = [2, 2]
        then Inr (quadratic_eigvals (at2 a 0 0) (at2 a 0 1) (at2 a 1 0) (at2 a 1 1))
      else Inl LinAlgError)"

definition small_lib :: "nat library" where
  "small_lib = \<lparr>seed_state = nat, uniform = counter_uniform, make_spd_matrix = small_spd,
                linalg_inv = diagonal_inv, linalg_eigvals = small_eigvals\<rparr>"

text \<open>The same library, except that seeding installs the state 1 instead of the seed.\<close>

definition reseeded_lib :: "nat library" where
  "reseeded_lib = small_lib\<lparr>seed_state := \<lambda>k. 1\<rparr>"

definition fresh_globals :: "nat globals" where
  "fresh_globals = \<lparr>environ = Map.empty, tf_seed = None, np_rng = 0, py_seed = None\<rparr>"

section \<open>Auxiliary notions for the statements\<close>



text \<open>A program whose outcome and final generator state depend on the incoming state only
  through numpy's generator, and one whose outcome does not depend on the incoming state
  at all.\<close>

definition rng_only :: "('a, 'g) prog \<Rightarrow> bool" where
  "rng_only m = (\<forall>s s'. np_rng s = np_rng s' \<longrightarrow>
       fst (m s) = fst (m s') \<and> np_rng (snd (m s)) = np_rng (snd (m s')))"

definition rng_free :: "('a, 'g) prog \<Rightarrow> bool" where
  "rng_free m = (\<forall>s s'. fst (m s) = fst (m s') \<and>
       (\<forall>x. fst (m s) = Inr x \<longrightarrow> np_rng (snd (m s)) = np_rng (snd (m s'))))"

text \<open>A matrix rescaled to unit diagonal: entry \<open>(i, j)\<close> divided by the square roots of
  the diagonal entries \<open>i\<close> and \<open>j\<close>.\<close>

definition correlation_of :: "nat \<Rightarrow> ndarray \<Rightarrow> ndarray" where
  "correlation_of m V = matrix_of m m (\<lambda>i j. at2 V i j / (sqrt (at2 V i i) * sqrt (at2 V j j)))"

text \<open>All eigenvalues of the matrix are real.\<close>

definition real_spectrum :: "nat \<Rightarrow> ndarray \<Rightarrow> bool" where
  "real_spectrum n a = (\<forall>z. eigenvalue n a z \<longrightarrow> z \<in> \<real>)"

section \<open>Sequencing and seeding lemmas\<close>

lemma fst_seq:
  "fst (seq m f s) = (case fst (m s) of Inl e \<Rightarrow> Inl e | Inr x \<Rightarrow> fst (f x (snd (m s))))"
  by (simp add: seq_def split: prod.splits sum.splits)

lemma seq_alt:
  "seq m f s = (case fst (m s) of Inl e \<Rightarrow> (Inl e, snd (m s)) | Inr x \<Rightarrow> f x (snd (m s)))"
  by (simp add: seq_def split: prod.splits sum.splits)

lemma seq_lift_lift: "seq (lift a) (\<lambda>x. lift (f x)) = lift (case a of Inl e \<Rightarrow> Inl e | Inr x \<Rightarrow> f x)"
  by (auto simp: seq_def lift_def split: sum.splits)

lemma ret_lift: "ret x = lift (Inr x)"
  by (simp add: ret_def lift_def)

lemma reset_fst:
  "fst (reset_random_seeds lib seed s) =
     (if 0 \<le> seed \<and> seed < 2 ^ 32 then Inr () else Inl (Library ValueError))"
  by (simp add: reset_random_seeds_def seq_def np_random_seed_def)

lemma reset_np_rng:
  "0 \<le> seed \<Longrightarrow> seed < 2 ^ 32 \<Longrightarrow>
   np_rng (snd (reset_random_seeds lib seed s)) = seed_state lib seed"
  by (simp add: reset_random_seeds_def seq_def np_random_seed_def)

lemma sample_fst:
  "fst (np_random_sample lib dims s) =
     (if list_ex (\<lambda>d. d < 0) dims then Inl (Library ValueError)
      else Inr \<lparr>shape = map nat dims,
                data = fst (draws (uniform lib) (prod_list (map nat dims)) (np_rng s))\<rparr>)"
  by (simp add: np_random_sample_def split: prod.splits)

lemma sample_np_rng:
  "np_rng (snd (np_random_sample lib dims s)) =
     (if list_ex (\<lambda>d. d < 0) dims then np_rng s
      else snd (draws (uniform lib) (prod_list (map nat dims)) (np_rng s)))"
  by (simp add: np_random_sample_def split: prod.splits)

lemma rng_onlyD:
  "rng_only m \<Longrightarrow> np_rng s = np_rng s' \<Longrightarrow>
   fst (m s) = fst (m s') \<and> np_rng (snd (m s)) = np_rng (snd (m s'))"
  unfolding rng_only_def by blast

lemma rng_freeD1: "rng_free m \<Longrightarrow> fst (m s) = fst (m s')"
  unfolding rng_free_def by blast

lemma rng_freeD2:
  "rng_free m \<Longrightarrow> fst (m s) = Inr x \<Longrightarrow> np_rng (snd (m s)) = np_rng (snd (m s'))"
  unfolding rng_free_def by blast

lemma rng_only_ret: "rng_only (ret x)"
  by (simp add: rng_only_def ret_def)

lemma rng_only_sample: "rng_only (np_random_sample lib dims)"
  by (simp add: rng_only_def sample_fst sample_np_rng)

lemma rng_only_seq:
  assumes "rng_only (m :: ('a, 'g) prog)" and "\<And>x. rng_only (f x)"
  shows "rng_only (seq m f)"
  unfolding rng_only_def
proof (intro allI impI)
  fix s s' :: "'g globals"
  assume eq: "np_rng s = np_rng s'"
  note ab = rng_onlyD[OF assms(1) eq]
  show "fst (seq m f s) = fst (seq m f s') \<and> np_rng (snd (seq m f s)) = np_rng (snd (seq m f s'))"
  proof (cases "fst (m s')")
    case (Inl e)
    with ab show ?thesis
      by (simp add: seq_alt)
  next
    case (Inr x)
    note rng_onlyD[OF assms(2)[of x] conjunct2[OF ab]]
    with Inr ab show ?thesis
      by (simp add: seq_alt)
  qed
qed

lemma rng_free_seq:
  assumes "rng_free m" and "\<And>x. rng_only (f x)"
  shows "fst (seq m f s) = fst (seq m f s')"
proof -
  note a = rng_freeD1[OF assms(1), of s s']
  show ?thesis
  proof (cases "fst (m s')")
    case (Inl e)
    with a show ?thesis
      by (simp add: seq_alt)
  next
    case (Inr x)
    with a have "fst (m s) = Inr x" by simp
    note b = rng_freeD2[OF assms(1) this, of s']
    note rng_onlyD[OF assms(2)[of x] b]
    with Inr a show ?thesis
      by (simp add: seq_alt)
  qed
qed

lemma rng_free_reset: "rng_free (reset_random_seeds lib seed)"
  unfolding rng_free_def
  by (auto simp: reset_fst reset_np_rng split: if_splits)

lemma params_per_dimension_fst:
  "fst (params_per_dimension lib n d seed s) = fst (params_per_dimension lib n d seed s')"
  unfolding params_per_dimension_def
  by (intro rng_free_seq rng_free_reset rng_only_seq rng_only_sample rng_only_ret)

lemma params_shared_fst:
  "fst (params_shared lib n d seed s) = fst (params_shared lib n d seed s')"
  unfolding params_shared_def
  by (intro rng_free_seq rng_free_reset rng_only_seq rng_only_sample rng_only_ret)

lemma built_from_params:
  assumes "\<And>s s'. fst (m s) = fst (m s')"
  shows "fst (seq m (\<lambda>p. lift (r p)) s) = fst (seq m (\<lambda>p. lift (r p)) s')"
  using assms[of s s'] by (simp add: seq_alt lift_def split: sum.splits)

lemma MixNormal1_fst: "fst (MixNormal1 lib n d seed s) = fst (MixNormal1 lib n d seed s')"
  unfolding MixNormal1_def ret_lift seq_lift_lift
  by (rule built_from_params) (rule params_per_dimension_fst)

lemma MixNormal1_indep_fst:
  "fst (MixNormal1_indep lib n d seed s) = fst (MixNormal1_indep lib n d seed s')"
  unfolding MixNormal1_indep_def ret_lift seq_lift_lift
  by (rule built_from_params) (rule params_per_dimension_fst)

lemma MixNormal2_fst: "fst (MixNormal2 lib n d seed s) = fst (MixNormal2 lib n d seed s')"
  unfolding MixNormal2_def ret_lift seq_lift_lift
  by (rule built_from_params) (rule params_shared_fst)

lemma MixNormal2_indep_fst:
  "fst (MixNormal2_indep lib n d seed s) = fst (MixNormal2_indep lib n d seed s')"
  unfolding MixNormal2_indep_def ret_lift seq_lift_lift
  by (rule built_from_params) (rule params_shared_fst)

lemma MixMultiNormal1_fst:
  "fst (MixMultiNormal1 lib n d seed s) = fst (MixMultiNormal1 lib n d seed s')"
  unfolding MixMultiNormal1_def ret_lift seq_lift_lift
  by (rule built_from_params) (rule params_shared_fst)

lemma MixMultiNormal1_indep_fst:
  "fst (MixMultiNormal1_indep lib n d seed s) = fst (MixMultiNormal1_indep lib n d seed s')"
  unfolding MixMultiNormal1_indep_def ret_lift seq_lift_lift
  by (rule built_from_params) (rule params_shared_fst)

lemma MixMultiNormal2_fst:
  "fst (MixMultiNormal2 lib n d seed s) = fst (MixMultiNormal2 lib n d seed s')"
  unfolding MixMultiNormal2_def ret_lift seq_lift_lift
  by (rule built_from_params) (rule params_shared_fst)

lemma MixMultiNormal2_indep_fst:
  "fst (MixMultiNormal2_indep lib n d seed s) = fst (MixMultiNormal2_indep lib n d seed s')"
  unfolding MixMultiNormal2_indep_def ret_lift seq_lift_lift
  by (rule built_from_params) (rule params_shared_fst)

text \<open>What the parameter draw returns: the arrays are the successive draws from the state
  the seed installs; an invalid seed or a negative size is the library's \<open>ValueError\<close>.\<close>

lemma params_shared_outcome:
  "fst (params_shared lib n d seed s) =
     (if 0 \<le> seed \<and> seed < 2 ^ 32 \<and> 0 \<le> n \<and> 0 \<le> d
      then Inr \<lparr>loc = times_scalar \<lparr>shape = [nat n, nat d],
                     data = fst (draws (uniform lib) (nat n * nat d) (seed_state lib seed))\<rparr> 10,
                scale = \<lparr>shape = [nat n, nat d],
                     data = fst (draws (uniform lib) (nat n * nat d)
                              (snd (draws (uniform lib) (nat n * nat d) (seed_state lib seed))))\<rparr>,
                probs = \<lparr>shape = [nat n],
                     data = fst (draws (uniform lib) (nat n)
                              (snd (draws (uniform lib) (nat n * nat d)
                                (snd (draws (uniform lib) (nat n * nat d) (seed_state lib seed))))))\<rparr>\<rparr>
      else Inl (Library ValueError))"
  unfolding params_shared_def
  by (simp add: fst_seq seq_alt reset_fst reset_np_rng sample_fst sample_np_rng ret_def)


lemma append_components_None:
  "append_components mk l sc js None =
     (if js = [] then Inr None else Inl (UnboundLocalError ''components''))"
  by (cases js) simp_all

lemma unbound_components:
  "seq (lift (append_components mk l sc js None)) (\<lambda>components.
     seq (lift (read_local ''components'' components)) f) s =
   (Inl (UnboundLocalError ''components''), s)"
  by (simp add: append_components_None seq_def lift_def read_local_def)

lemma draws_Suc:
  "draws u (Suc k) g = (fst (u g) # fst (draws u k (snd (u g))), snd (draws u k (snd (u g))))"
  by (simp split: prod.splits)

lemma draws_length: "length (fst (draws u k g)) = k"
  by (induction k arbitrary: g) (simp_all add: draws_Suc del: draws.simps(2))


lemma small_lib_simps:
  "uniform small_lib = counter_uniform" "seed_state small_lib = nat"
  "make_spd_matrix small_lib = small_spd" "linalg_inv small_lib = diagonal_inv"
  "linalg_eigvals small_lib = small_eigvals"
  by (simp_all add: small_lib_def)

section \<open>The mixture constructors: results\<close>

text \<open>Three of the four \<open>_indep\<close> constructors return the object of their twin inside
  \<open>Independent\<close> with \<open>reinterpreted_batch_ndims = 0\<close>, and fail where the twin fails.\<close>

lemma independent_wrapper_pairs:
  "fst (MixNormal1_indep lib n d seed s) =
     (case fst (MixNormal1 lib n d seed s) of Inl e \<Rightarrow> Inl e | Inr m \<Rightarrow> Inr (Independent m 0))"
  "fst (MixNormal2_indep lib n d seed s) =
     (case fst (MixNormal2 lib n d seed s) of Inl e \<Rightarrow> Inl e | Inr m \<Rightarrow> Inr (Independent m 0))"
  "fst (MixMultiNormal2_indep lib n d seed s) =
     (case fst (MixMultiNormal2 lib n d seed s) of Inl e \<Rightarrow> Inl e | Inr m \<Rightarrow> Inr (Independent m 0))"
  unfolding MixNormal1_indep_def MixNormal1_def MixNormal2_indep_def MixNormal2_def
    MixMultiNormal2_indep_def MixMultiNormal2_def
  by (simp_all add: seq_alt lift_def ret_def split: sum.splits)

text \<open>The mixture constructors use the library through its generator only.\<close>

lemma np_random_seed_generator_only:
  "seed_state lib' = seed_state lib \<Longrightarrow> np_random_seed lib' = np_random_seed lib"
  by (intro ext) (simp add: np_random_seed_def)

lemma np_random_sample_generator_only:
  "uniform lib' = uniform lib \<Longrightarrow> np_random_sample lib' = np_random_sample lib"
  by (intro ext) (simp add: np_random_sample_def)

lemma params_shared_generator_only:
  "seed_state lib' = seed_state lib \<Longrightarrow> uniform lib' = uniform lib \<Longrightarrow>
   params_shared lib' = params_shared lib"
  unfolding params_shared_def reset_random_seeds_def
  by (simp add: np_random_seed_generator_only[of lib' lib] np_random_sample_generator_only[of lib' lib])

lemma MixMultiNormal1_generator_only:
  assumes "seed_state lib' = seed_state lib" and "uniform lib' = uniform lib"
  shows "MixMultiNormal1 lib' = MixMultiNormal1 lib"
    and "MixMultiNormal1_indep lib' = MixMultiNormal1_indep lib"
  unfolding MixMultiNormal1_def MixMultiNormal1_indep_def
  by (simp_all add: params_shared_generator_only[OF assms])

text \<open>
  Claim C1. Each constructor and its \<open>_indep\<close> twin are meant to give the same samples.
  The pair \<open>MixMultiNormal1\<close> / \<open>MixMultiNormal1_indep\<close> does not: on the default
  arguments (3 components, 4 dimensions, seed 0) the first returns its mixture and the
  second raises \<open>UnboundLocalError\<close>, so it has no samples at all.
\<close>

theorem MixMultiNormal1_pair_diverges:
  "fst (MixMultiNormal1 small_lib 3 4 0 fresh_globals) =
     Inr (Mixture (Categorical \<lparr>shape = [3], data = [1 / 2, 5 / 8, 3 / 4]\<rparr>)
       [MultivariateNormalDiag \<lparr>shape = [4], data = [5 / 4, 5 / 2, 15 / 4, 5]\<rparr>
          \<lparr>shape = [4], data = [3 / 4, 7 / 8, 1 / 8, 1 / 4]\<rparr>,
        MultivariateNormalDiag \<lparr>shape = [4], data = [25 / 4, 15 / 2, 35 / 4, 5 / 4]\<rparr>
          \<lparr>shape = [4], data = [3 / 8, 1 / 2, 5 / 8, 3 / 4]\<rparr>,
        MultivariateNormalDiag \<lparr>shape = [4], data = [5 / 2, 15 / 4, 5, 25 / 4]\<rparr>
          \<lparr>shape = [4], data = [7 / 8, 1 / 8, 1 / 4, 3 / 8]\<rparr>] True) \<and>
   fst (MixMultiNormal1_indep small_lib 3 4 0 fresh_globals) =
     Inl (UnboundLocalError ''components'')"
proof -
  define gen :: "nat library" where
    "gen = \<lparr>seed_state = nat, uniform = counter_uniform, make_spd_matrix = small_spd,
            linalg_inv = diagonal_inv, linalg_eigvals = (\<lambda>a. Inl LinAlgError)\<rparr>"
  have same: "seed_state small_lib = seed_state gen" "uniform small_lib = uniform gen"
    by (simp_all add: gen_def small_lib_def)
  have "fst (MixMultiNormal1 gen 3 4 0 fresh_globals) =
     Inr (Mixture (Categorical \<lparr>shape = [3], data = [1 / 2, 5 / 8, 3 / 4]\<rparr>)
       [MultivariateNormalDiag \<lparr>shape = [4], data = [5 / 4, 5 / 2, 15 / 4, 5]\<rparr>
          \<lparr>shape = [4], data = [3 / 4, 7 / 8, 1 / 8, 1 / 4]\<rparr>,
        MultivariateNormalDiag \<lparr>shape = [4], data = [25 / 4, 15 / 2, 35 / 4, 5 / 4]\<rparr>
          \<lparr>shape = [4], data = [3 / 8, 1 / 2, 5 / 8, 3 / 4]\<rparr>,
        MultivariateNormalDiag \<lparr>shape = [4], data = [5 / 2, 15 / 4, 5, 25 / 4]\<rparr>
          \<lparr>shape = [4], data = [7 / 8, 1 / 8, 1 / 4, 3 / 8]\<rparr>] True) \<and>
   fst (MixMultiNormal1_indep gen 3 4 0 fresh_globals) =
     Inl (UnboundLocalError ''components'')"
    unfolding gen_def by code_simp
  then show ?thesis
    by (simp only: MixMultiNormal1_generator_only[OF same])
qed


text \<open>
  Claim C2. The constructors are meant to raise nothing of their own.
  \<open>MixMultiNormal1_indep\<close> never returns: whenever the library accepts the seed and
  the sizes, the constructor's own read of the unassigned local \<open>components\<close> raises.
\<close>

theorem MixMultiNormal1_indep_always_raises:
  "fst (MixMultiNormal1_indep lib n d seed s) =
     (if 0 \<le> seed \<and> seed < 2 ^ 32 \<and> 0 \<le> n \<and> 0 \<le> d
      then Inl (UnboundLocalError ''components'') else Inl (Library ValueError)) \<and>
   own_error (UnboundLocalError ''components'')"
  unfolding MixMultiNormal1_indep_def
  by (simp add: fst_seq[of "params_shared lib n d seed"] params_shared_outcome unbound_components)

text \<open>
  Claim C3. Two calls of one constructor with the same arguments draw the same location,
  scale and weight arrays and have the same outcome, whatever the global state was
  before each call: the seeds are reset before anything is drawn.
\<close>

theorem constructors_reproducible:
  "fst (params_per_dimension lib n d seed s) = fst (params_per_dimension lib n d seed s') \<and>
   fst (params_shared lib n d seed s) = fst (params_shared lib n d seed s') \<and>
   fst (MixNormal1 lib n d seed s) = fst (MixNormal1 lib n d seed s') \<and>
   fst (MixNormal2 lib n d seed s) = fst (MixNormal2 lib n d seed s') \<and>
   fst (MixNormal1_indep lib n d seed s) = fst (MixNormal1_indep lib n d seed s') \<and>
   fst (MixNormal2_indep lib n d seed s) = fst (MixNormal2_indep lib n d seed s') \<and>
   fst (MixMultiNormal1 lib n d seed s) = fst (MixMultiNormal1 lib n d seed s') \<and>
   fst (MixMultiNormal2 lib n d seed s) = fst (MixMultiNormal2 lib n d seed s') \<and>
   fst (MixMultiNormal1_indep lib n d seed s) = fst (MixMultiNormal1_indep lib n d seed s') \<and>
   fst (MixMultiNormal2_indep lib n d seed s) = fst (MixMultiNormal2_indep lib n d seed s')"
  by (intro conjI params_per_dimension_fst params_shared_fst MixNormal1_fst MixNormal2_fst
    MixNormal1_indep_fst MixNormal2_indep_fst MixMultiNormal1_fst MixMultiNormal2_fst
    MixMultiNormal1_indep_fst MixMultiNormal2_indep_fst)






section \<open>Matrices: entries, products, diagonals\<close>

lemma dot_sum_eq: "dot_sum k f = (\<Sum>l<k. f l)"
  by (simp add: dot_sum_def interv_sum_list_conv_sum_set_nat atLeast0LessThan)

lemma index_bound: "i < n \<Longrightarrow> j < m \<Longrightarrow> i * m + j < n * (m::nat)"
proof -
  assume a: "i < n" "j < m"
  then have "i * m + j < i * m + m" by simp
  also have "\<dots> = Suc i * m" by simp
  also from a have "\<dots> \<le> n * m" by (intro mult_le_mono1) simp
  finally show ?thesis .
qed

lemma shape_matrix_of [simp]: "shape (matrix_of n m f) = [n, m]"
  by (simp add: matrix_of_def)

lemma wf_matrix_of [simp]: "wf_array (matrix_of n m f)"
  by (simp add: matrix_of_def wf_array_def)

lemma at2_matrix_of: "i < n \<Longrightarrow> j < m \<Longrightarrow> at2 (matrix_of n m f) i j = f i j"
  by (simp add: at2_def matrix_of_def index_bound)

lemma matrix_of_cong:
  assumes "\<And>i j. i < n \<Longrightarrow> j < m \<Longrightarrow> f i j = g i j"
  shows "matrix_of n m f = matrix_of n m g"
proof -
  have "f (k div m) (k mod m) = g (k div m) (k mod m)" if "k < n * m" for k
  proof -
    from that have "0 < m" by (cases m) simp_all
    moreover from that have "k div m < n" by (simp add: less_mult_imp_div_less)
    ultimately show ?thesis by (intro assms) simp_all
  qed
  then show ?thesis by (simp add: matrix_of_def)
qed

lemma matrix_of_at2:
  assumes "shape a = [n, m]" "wf_array a"
  shows "matrix_of n m (at2 a) = a"
proof -
  from assms have len: "length (data a) = n * m" by (simp add: wf_array_def)
  have "map (\<lambda>k. at2 a (k div m) (k mod m)) [0 ..< n * m] = map (\<lambda>k. data a ! k) [0 ..< n * m]"
    using assms(1) by (simp add: at2_def)
  also have "\<dots> = data a" using len map_nth[of "data a"] by simp
  finally show ?thesis using assms(1) by (simp add: matrix_of_def)
qed

lemma matrix_of_eqD:
  "matrix_of n m f = matrix_of n m g \<Longrightarrow> i < n \<Longrightarrow> j < m \<Longrightarrow> f i j = g i j"
  by (metis at2_matrix_of)

lemma square_matrix_of [simp]: "square_matrix n (matrix_of n n f)"
  by (simp add: square_matrix_def)

lemma np_matmul_square:
  "shape a = [n, n] \<Longrightarrow> shape b = [n, n] \<Longrightarrow>
   np_matmul a b = Inr (matrix_of n n (\<lambda>i j. \<Sum>l<n. at2 a i l * at2 b l j))"
  by (simp add: np_matmul_def dot_sum_eq)

lemma np_transpose_square:
  "shape a = [n, n] \<Longrightarrow> np_transpose a = matrix_of n n (\<lambda>i j. at2 a j i)"
  by (simp add: np_transpose_def)

lemma at2_identity: "i < n \<Longrightarrow> j < n \<Longrightarrow> at2 (identity n) i j = (if i = j then 1 else 0)"
  by (simp add: identity_def at2_matrix_of)

lemma sum_pick_left: "i < m \<Longrightarrow> (\<Sum>k<m. (if i = k then c else 0) * f k) = c * f i" for f :: "nat \<Rightarrow> real"
proof -
  assume i: "i < m"
  have "(\<Sum>k<m. (if i = k then c else 0) * f k) = (\<Sum>k<m. if k = i then c * f k else 0)"
    by (rule sum.cong[OF refl]) simp
  also have "\<dots> = c * f i" using i by (simp add: sum.delta)
  finally show ?thesis .
qed

lemma sum_pick_right: "j < m \<Longrightarrow> (\<Sum>k<m. f k * (if k = j then c else 0)) = f j * c" for f :: "nat \<Rightarrow> real"
proof -
  assume j: "j < m"
  have "(\<Sum>k<m. f k * (if k = j then c else 0)) = (\<Sum>k<m. if k = j then f k * c else 0)"
    by (rule sum.cong[OF refl]) simp
  also have "\<dots> = f j * c" using j by (simp add: sum.delta)
  finally show ?thesis .
qed

lemma np_sqrt_matrix_of: "np_sqrt (matrix_of n m f) = matrix_of n m (\<lambda>i j. sqrt (f i j))"
  by (simp add: np_sqrt_def matrix_of_def)

lemma np_diag_vector:
  "shape v = [m] \<Longrightarrow> np_diag v = Inr (matrix_of m m (\<lambda>i j. if i = j then data v ! i else 0))"
  by (simp add: np_diag_def)

lemma np_diag_square:
  "shape a = [m, m] \<Longrightarrow> np_diag a = Inr (vector_of m (\<lambda>i. at2 a i i))"
  by (simp add: np_diag_def)

lemma shape_vector_of [simp]: "shape (vector_of n f) = [n]"
  by (simp add: vector_of_def)

lemma sqrt_diagonal_square:
  assumes "square_matrix m V"
  shows "sqrt_diagonal V = Inr (matrix_of m m (\<lambda>i j. if i = j then sqrt (at2 V i i) else 0))"
proof -
  from assms have sh: "shape V = [m, m]" by (simp add: square_matrix_def)
  have "sqrt_diagonal V =
      Inr (matrix_of m m (\<lambda>i j. sqrt (if i = j then data (vector_of m (\<lambda>i. at2 V i i)) ! i else 0)))"
    by (simp add: sqrt_diagonal_def np_diag_square[OF sh] np_diag_vector[of _ m]
          np_sqrt_matrix_of)
  also have "matrix_of m m (\<lambda>i j. sqrt (if i = j then data (vector_of m (\<lambda>i. at2 V i i)) ! i else 0)) =
      matrix_of m m (\<lambda>i j. if i = j then sqrt (at2 V i i) else 0)"
    by (rule matrix_of_cong) (simp add: vector_of_def)
  finally show ?thesis .
qed

lemma diagonal_inverse_entries:
  assumes "square_matrix m Dinv"
    and "np_matmul (matrix_of m m (\<lambda>i j. if i = j then d i else 0)) Dinv = Inr (identity m)"
    and "d i \<noteq> 0" and "i < m" and "j < m"
  shows "at2 Dinv i j = (if i = j then 1 / d i else 0)"
proof -
  from assms(1) have sh: "shape Dinv = [m, m]" by (simp add: square_matrix_def)
  have "matrix_of m m (\<lambda>i j. \<Sum>l<m. at2 (matrix_of m m (\<lambda>i j. if i = j then d i else 0)) i l * at2 Dinv l j)
        = matrix_of m m (\<lambda>i j. if i = j then 1 else 0)"
    using assms(2) sh by (simp add: np_matmul_square identity_def)
  then have "(\<Sum>l<m. at2 (matrix_of m m (\<lambda>i j. if i = j then d i else 0)) i l * at2 Dinv l j)
        = (if i = j then 1 else 0)"
    using assms(4,5) by (rule matrix_of_eqD)
  moreover have "(\<Sum>l<m. at2 (matrix_of m m (\<lambda>i j. if i = j then d i else 0)) i l * at2 Dinv l j)
        = (\<Sum>l<m. (if i = l then d i else 0) * at2 Dinv l j)"
    by (rule sum.cong[OF refl]) (simp add: at2_matrix_of assms(4))
  ultimately have "d i * at2 Dinv i j = (if i = j then 1 else 0)"
    using assms(4) by (simp add: sum_pick_left)
  with assms(3) show ?thesis by (auto simp: field_simps)
qed

lemma sandwich_diagonal:
  assumes A: "shape A = [m, m]" and B: "shape B = [m, m]"
    and diag: "\<And>i j. i < m \<Longrightarrow> j < m \<Longrightarrow> at2 A i j = (if i = j then a i else 0)"
  shows "sandwich A B = Inr (matrix_of m m (\<lambda>i j. a i * at2 B i j * a j))"
proof -
  define T where "T = matrix_of m m (\<lambda>i j. \<Sum>l<m. at2 A i l * at2 B l j)"
  have T: "at2 T i j = a i * at2 B i j" if "i < m" "j < m" for i j
  proof -
    have "at2 T i j = (\<Sum>l<m. at2 A i l * at2 B l j)"
      using that by (simp add: T_def at2_matrix_of)
    also have "\<dots> = (\<Sum>l<m. (if i = l then a i else 0) * at2 B l j)"
      by (rule sum.cong[OF refl]) (simp add: diag that)
    also have "\<dots> = a i * at2 B i j"
      using that by (simp add: sum_pick_left)
    finally show ?thesis .
  qed
  have "sandwich A B = Inr (matrix_of m m (\<lambda>i j. \<Sum>l<m. at2 T i l * at2 A l j))"
    using A B by (simp add: sandwich_def np_matmul_square T_def)
  also have "matrix_of m m (\<lambda>i j. \<Sum>l<m. at2 T i l * at2 A l j) =
             matrix_of m m (\<lambda>i j. a i * at2 B i j * a j)"
  proof (rule matrix_of_cong)
    fix i j assume ij: "i < m" "j < m"
    have "(\<Sum>l<m. at2 T i l * at2 A l j) = (\<Sum>l<m. (a i * at2 B i l) * (if l = j then a j else 0))"
      by (rule sum.cong[OF refl]) (auto simp: T diag ij)
    also have "\<dots> = a i * at2 B i j * a j"
      using ij by (simp add: sum_pick_right)
    finally show "(\<Sum>l<m. at2 T i l * at2 A l j) = a i * at2 B i j * a j" .
  qed
  finally show ?thesis .
qed

section \<open>Rotation and inverse rotation\<close>

lemma orthonormal_rows:
  assumes "orthonormal n r" "i < n" "j < n"
  shows "(\<Sum>l<n. at2 r i l * at2 r j l) = (if i = j then 1 else 0)"
proof -
  from assms(1) have sh: "shape r = [n, n]"
    and eq: "np_matmul r (np_transpose r) = Inr (identity n)"
    by (simp_all add: orthonormal_def square_matrix_def)
  have "matrix_of n n (\<lambda>i j. \<Sum>l<n. at2 r i l * at2 (np_transpose r) l j) = identity n"
    using eq sh by (simp add: np_matmul_square np_transpose_square)
  then have "(\<Sum>l<n. at2 r i l * at2 (np_transpose r) l j) = (if i = j then 1 else 0)"
    unfolding identity_def using assms(2,3) by (rule matrix_of_eqD)
  moreover have "at2 r i l * at2 (np_transpose r) l j = at2 r i l * at2 r j l" if "l < n" for l
    using sh that assms(3) by (simp add: np_transpose_square at2_matrix_of)
  ultimately show ?thesis by simp
qed

lemma prod_list_butlast: "sh \<noteq> [] \<Longrightarrow> prod_list (butlast sh) * last sh = prod_list sh"
  by (induction sh) (auto simp: mult.assoc)

lemma np_dot_general:
  assumes "shape b = [n, m]" "shape a \<noteq> []" "last (shape a) = n"
  shows "np_dot a b = Inr \<lparr>shape = butlast (shape a) @ [m],
           data = map (\<lambda>idx. \<Sum>l<n. data a ! ((idx div m) * n + l) * at2 b l (idx mod m))
                      [0 ..< prod_list (butlast (shape a)) * m]\<rparr>"
  using assms by (simp add: np_dot_def dot_sum_eq)

lemma round_trip_entry:
  assumes orth: "orthonormal n r" and idx: "idx < p * n"
    and y: "\<And>k. k < p * n \<Longrightarrow> ys ! k = (\<Sum>l<n. xs ! ((k div n) * n + l) * at2 r l (k mod n))"
  shows "(\<Sum>l<n. ys ! ((idx div n) * n + l) * at2 (np_transpose r) l (idx mod n)) = xs ! idx"
proof -
  from idx have npos: "0 < n" by (cases n) simp_all
  define i where "i = idx div n"
  define j where "j = idx mod n"
  from idx have i: "i < p" unfolding i_def by (simp add: less_mult_imp_div_less)
  from npos have j: "j < n" unfolding j_def by simp
  from orth have sh: "shape r = [n, n]" by (simp add: orthonormal_def square_matrix_def)
  have "(\<Sum>l<n. ys ! (i * n + l) * at2 (np_transpose r) l j) =
        (\<Sum>l<n. (\<Sum>k<n. xs ! (i * n + k) * at2 r k l) * at2 r j l)"
  proof (rule sum.cong[OF refl])
    fix l assume "l \<in> {..<n}"
    then have l: "l < n" by simp
    with i have "i * n + l < p * n" by (rule index_bound)
    then have "ys ! (i * n + l) = (\<Sum>k<n. xs ! (((i * n + l) div n) * n + k) * at2 r k ((i * n + l) mod n))"
      by (rule y)
    also have "\<dots> = (\<Sum>k<n. xs ! (i * n + k) * at2 r k l)"
      using l by simp
    finally show "ys ! (i * n + l) * at2 (np_transpose r) l j =
        (\<Sum>k<n. xs ! (i * n + k) * at2 r k l) * at2 r j l"
      using sh l j by (simp add: np_transpose_square at2_matrix_of)
  qed
  also have "\<dots> = (\<Sum>l<n. \<Sum>k<n. xs ! (i * n + k) * (at2 r k l * at2 r j l))"
    by (simp add: sum_distrib_right mult.assoc)
  also have "\<dots> = (\<Sum>k<n. \<Sum>l<n. xs ! (i * n + k) * (at2 r k l * at2 r j l))"
    by (rule sum.swap)
  also have "\<dots> = (\<Sum>k<n. xs ! (i * n + k) * (\<Sum>l<n. at2 r k l * at2 r j l))"
    by (simp add: sum_distrib_left)
  also have "\<dots> = (\<Sum>k<n. xs ! (i * n + k) * (if k = j then 1 else 0))"
    by (rule sum.cong[OF refl]) (simp add: orthonormal_rows[OF orth _ j])
  also have "\<dots> = (\<Sum>k<n. if k = j then xs ! (i * n + j) else 0)"
    by (rule sum.cong[OF refl]) simp
  also have "\<dots> = xs ! (i * n + j)"
    using j by (simp add: sum.delta)
  also have "i * n + j = idx" by (simp add: i_def j_def)
  finally show ?thesis by (simp add: i_def j_def)
qed

lemma rot_orthonormal: "orthonormal 2 \<lparr>shape = [2, 2], data = [3 / 5, 4 / 5, - (4 / 5), 3 / 5]\<rparr>"
  by code_simp

text \<open>
  Claim C4. For an orthonormal rotation matrix \<open>r\<close> of size \<open>n\<close> and any array \<open>x\<close> whose
  last dimension is \<open>n\<close> (a sample matrix with \<open>n\<close> columns), \<open>transform_data\<close> succeeds
  and \<open>inverse_transform_data\<close> gives \<open>x\<close> back. In exact arithmetic the round trip
  is an equality.
\<close>

theorem rotation_round_trip:
  assumes "orthonormal n r" and "wf_array x" and "shape x \<noteq> []" and "last (shape x) = n"
  shows "\<exists>y. transform_data x r = Inr y \<and> inverse_transform_data y r = Inr x"
proof -
  from assms(1) have sh: "shape r = [n, n]" by (simp add: orthonormal_def square_matrix_def)
  define p where "p = prod_list (butlast (shape x))"
  define ys where "ys = map (\<lambda>idx. \<Sum>l<n. data x ! ((idx div n) * n + l) * at2 r l (idx mod n))
                      [0 ..< p * n]"
  define y where "y = \<lparr>shape = butlast (shape x) @ [n], data = ys\<rparr>"
  have shx: "butlast (shape x) @ [n] = shape x"
    using assms(3,4) append_butlast_last_id[of "shape x"] by simp
  then have shy: "shape y = shape x" by (simp add: y_def)
  have len: "length (data x) = p * n"
    using assms(2,3,4) prod_list_butlast[of "shape x"] by (simp add: wf_array_def p_def)
  have "np_dot x r = Inr y"
    unfolding y_def ys_def p_def by (rule np_dot_general[OF sh assms(3,4)])
  then have t: "transform_data x r = Inr y"
    using sh by (simp add: transform_data_def from_lib_def)
  have sht: "shape (np_transpose r) = [n, n]"
    using sh by (simp add: np_transpose_square)
  have ynth: "ys ! k = (\<Sum>l<n. data x ! ((k div n) * n + l) * at2 r l (k mod n))" if "k < p * n" for k
    using that by (simp add: ys_def)
  have entry: "(\<Sum>l<n. ys ! ((idx div n) * n + l) * at2 (np_transpose r) l (idx mod n)) = data x ! idx"
    if "idx < p * n" for idx
    using assms(1) that ynth by (rule round_trip_entry)
  have "map (\<lambda>idx. \<Sum>l<n. ys ! ((idx div n) * n + l) * at2 (np_transpose r) l (idx mod n))
          [0 ..< p * n] = map (\<lambda>idx. data x ! idx) [0 ..< p * n]"
    by (rule map_cong[OF refl]) (simp add: entry)
  also have "\<dots> = data x"
    using len map_nth[of "data x"] by simp
  finally have d: "map (\<lambda>idx. \<Sum>l<n. ys ! ((idx div n) * n + l) * at2 (np_transpose r) l (idx mod n))
          [0 ..< p * n] = data x" .
  have shy_ne: "shape y \<noteq> []" and shy_last: "last (shape y) = n"
    using shy assms(3,4) by simp_all
  have "np_dot y (np_transpose r) = Inr \<lparr>shape = butlast (shape y) @ [n],
           data = map (\<lambda>idx. \<Sum>l<n. data y ! ((idx div n) * n + l) * at2 (np_transpose r) l (idx mod n))
                      [0 ..< prod_list (butlast (shape y)) * n]\<rparr>"
    by (rule np_dot_general[OF sht shy_ne shy_last])
  also have "data y = ys" by (simp add: y_def)
  also have "prod_list (butlast (shape y)) = p" by (simp add: shy p_def)
  also have "butlast (shape y) @ [n] = shape x" by (simp add: shy shx)
  finally have "np_dot y (np_transpose r) = Inr \<lparr>shape = shape x, data = data x\<rparr>"
    by (simp only: d)
  then have "inverse_transform_data y r = Inr x"
    using sh by (simp add: inverse_transform_data_def from_lib_def)
  with t show ?thesis by blast
qed

theorem rotation_round_trip_witness:
  "orthonormal 2 \<lparr>shape = [2, 2], data = [3 / 5, 4 / 5, - (4 / 5), 3 / 5]\<rparr> \<and>
   wf_array \<lparr>shape = [3, 2], data = [1, 2, 3, 4, 5, 6]\<rparr> \<and>
   shape \<lparr>shape = [3, 2], data = [1, 2, 3, 4, 5, 6]\<rparr> \<noteq> [] \<and>
   last (shape \<lparr>shape = [3, 2], data = [1, 2, 3, 4, 5, 6]\<rparr>) = 2 \<and>
   (\<exists>y. transform_data \<lparr>shape = [3, 2], data = [1, 2, 3, 4, 5, 6]\<rparr>
          \<lparr>shape = [2, 2], data = [3 / 5, 4 / 5, - (4 / 5), 3 / 5]\<rparr> = Inr y \<and>
        inverse_transform_data y \<lparr>shape = [2, 2], data = [3 / 5, 4 / 5, - (4 / 5), 3 / 5]\<rparr> =
          Inr \<lparr>shape = [3, 2], data = [1, 2, 3, 4, 5, 6]\<rparr>)"
proof -
  have h2: "wf_array \<lparr>shape = [3, 2], data = [1, 2, 3, 4, 5, 6]\<rparr>" by (simp add: wf_array_def)
  have h3: "shape \<lparr>shape = [3, 2], data = [1, 2, 3, 4, 5, 6]\<rparr> \<noteq> []" by simp
  have h4: "last (shape \<lparr>shape = [3, 2], data = [1, 2, 3, 4, 5, 6]\<rparr>) = 2" by simp
  from rot_orthonormal h2 h3 h4 rotation_round_trip[OF rot_orthonormal h2 h3 h4] show ?thesis
    by (intro conjI)
qed

section \<open>Random correlation matrices\<close>

lemma RandCorr_fst:
  "fst (RandCorr lib n seed s) =
     (case fst (make_spd_matrix lib n seed (seed_state lib 0)) of
        Inl e \<Rightarrow> Inl (Library e)
      | Inr V \<Rightarrow>
          (case sqrt_diagonal V of
             Inl e \<Rightarrow> Inl (Library e)
           | Inr D \<Rightarrow>
               (case linalg_inv lib D of
                  Inl e \<Rightarrow> Inl (Library e)
                | Inr Dinv \<Rightarrow> from_lib (sandwich Dinv V))))"
  by (simp add: RandCorr_def seq_def np_random_seed_def call_make_spd_matrix_def lift_def from_lib_def
        split: prod.splits sum.splits)

lemma RandCorr_snd:
  "snd (RandCorr lib n seed s) = s\<lparr>np_rng := snd (make_spd_matrix lib n seed (seed_state lib 0))\<rparr>"
  by (simp add: RandCorr_def seq_def np_random_seed_def call_make_spd_matrix_def lift_def
        split: prod.splits sum.splits)

lemma RandCorr_result:
  assumes spd: "make_spd_matrix lib n seed (seed_state lib 0) = (Inr V, g)"
    and V: "square_matrix m V" and pos: "\<And>i. i < m \<Longrightarrow> 0 < at2 V i i"
    and D: "sqrt_diagonal V = Inr D" and inv: "linalg_inv lib D = Inr Dinv"
    and Dinv: "square_matrix m Dinv" and one: "np_matmul D Dinv = Inr (identity m)"
  shows "fst (RandCorr lib n seed s) = Inr (correlation_of m V)"
proof -
  from D sqrt_diagonal_square[OF V]
  have D_eq: "D = matrix_of m m (\<lambda>i j. if i = j then sqrt (at2 V i i) else 0)" by simp
  have entries: "at2 Dinv i j = (if i = j then 1 / sqrt (at2 V i i) else 0)" if "i < m" "j < m" for i j
  proof (rule diagonal_inverse_entries[OF Dinv _ _ that])
    show "np_matmul (matrix_of m m (\<lambda>i j. if i = j then sqrt (at2 V i i) else 0)) Dinv = Inr (identity m)"
      using one by (simp add: D_eq)
    from pos[OF that(1)] show "sqrt (at2 V i i) \<noteq> 0" by simp
  qed
  from V Dinv have shV: "shape V = [m, m]" and shD: "shape Dinv = [m, m]"
    by (simp_all add: square_matrix_def)
  have "sandwich Dinv V = Inr (matrix_of m m (\<lambda>i j. 1 / sqrt (at2 V i i) * at2 V i j * (1 / sqrt (at2 V j j))))"
    using shD shV entries by (rule sandwich_diagonal)
  also have "matrix_of m m (\<lambda>i j. 1 / sqrt (at2 V i i) * at2 V i j * (1 / sqrt (at2 V j j))) = correlation_of m V"
    unfolding correlation_of_def by (rule matrix_of_cong) simp
  finally have "sandwich Dinv V = Inr (correlation_of m V)" .
  with spd D inv show ?thesis by (simp add: RandCorr_fst from_lib_def)
qed

lemma at2_correlation_of:
  "i < m \<Longrightarrow> j < m \<Longrightarrow> at2 (correlation_of m V) i j = at2 V i j / (sqrt (at2 V i i) * sqrt (at2 V j j))"
  by (simp add: correlation_of_def at2_matrix_of)

lemma correlation_square: "square_matrix m (correlation_of m V)"
  by (simp add: correlation_of_def)

lemma correlation_symmetric: "symmetric m V \<Longrightarrow> symmetric m (correlation_of m V)"
  by (simp add: symmetric_def at2_correlation_of mult.commute)

lemma correlation_unit_diagonal:
  assumes "\<And>i. i < m \<Longrightarrow> 0 < at2 V i i"
  shows "unit_diagonal m (correlation_of m V)"
  unfolding unit_diagonal_def
proof (intro allI impI)
  fix i assume i: "i < m"
  from assms[OF i] show "at2 (correlation_of m V) i i = 1"
    using i by (simp add: at2_correlation_of)
qed

lemma positive_definite_diagonal:
  assumes "positive_definite m V" and "i < m"
  shows "0 < at2 V i i"
proof -
  define e :: "nat \<Rightarrow> real" where "e = (\<lambda>k. if i = k then 1 else 0)"
  have "quad_form m V e = (\<Sum>a<m. (if i = a then 1 else 0) * (\<Sum>b<m. at2 V a b * (if b = i then 1 else 0)))"
    unfolding quad_form_def e_def
    by (rule sum.cong[OF refl]) (auto simp: sum_distrib_left mult.assoc intro!: sum.cong)
  also have "\<dots> = (\<Sum>a<m. (if i = a then 1 else 0) * at2 V a i)"
    using assms(2) by (simp add: sum_pick_right)
  also have "\<dots> = at2 V i i"
    using assms(2) by (simp add: sum_pick_left)
  finally have "quad_form m V e = at2 V i i" .
  moreover have "\<exists>k<m. e k \<noteq> 0" using assms(2) by (auto simp: e_def)
  ultimately show ?thesis using assms(1) by (auto simp: positive_definite_def)
qed

lemma correlation_eigenvalues_positive:
  assumes pd: "positive_definite m V" and ep: "eigenpair m (correlation_of m V) lam x"
  shows "0 < lam"
proof -
  define d where "d = (\<lambda>i. sqrt (at2 V i i))"
  have dpos: "0 < d i" if "i < m" for i
    using positive_definite_diagonal[OF pd that] by (simp add: d_def)
  define y where "y = (\<lambda>i. x i / d i)"
  from ep obtain k where k: "k < m" "x k \<noteq> 0" by (auto simp: eigenpair_def)
  with dpos[of k] have "y k \<noteq> 0" by (simp add: y_def)
  with k have "\<exists>i<m. y i \<noteq> 0" by blast
  with pd have qpos: "0 < quad_form m V y" by (simp add: positive_definite_def)
  have "quad_form m V y = (\<Sum>i<m. \<Sum>j<m. x i * (at2 (correlation_of m V) i j * x j))"
    unfolding quad_form_def
  proof (intro sum.cong refl)
    fix i j assume "i \<in> {..<m}" "j \<in> {..<m}"
    then have ij: "i < m" "j < m" by simp_all
    show "y i * at2 V i j * y j = x i * (at2 (correlation_of m V) i j * x j)"
      using ij by (simp add: y_def at2_correlation_of d_def)
  qed
  also have "\<dots> = (\<Sum>i<m. x i * (\<Sum>j<m. at2 (correlation_of m V) i j * x j))"
    by (simp add: sum_distrib_left)
  also have "\<dots> = (\<Sum>i<m. x i * (lam * x i))"
    using ep by (intro sum.cong refl) (simp add: eigenpair_def)
  also have "\<dots> = lam * (\<Sum>i<m. x i * x i)"
    by (simp add: sum_distrib_left mult.left_commute)
  finally have eq: "quad_form m V y = lam * (\<Sum>i<m. x i * x i)" .
  have "0 \<le> (\<Sum>i<m. x i * x i)" by (intro sum_nonneg) simp
  with qpos eq show ?thesis
    by (metis mult_nonpos_nonneg not_le)
qed

text \<open>Facts about the small library instance.\<close>

lemma at2_four_diagonal:
  "i < m \<Longrightarrow> j < m \<Longrightarrow> at2 (four_diagonal m c) i j = (if i = j then 4 else c)"
  by (simp add: four_diagonal_def at2_matrix_of)

lemma four_diagonal_square: "square_matrix m (four_diagonal m c)"
  by (simp add: four_diagonal_def)

lemma four_diagonal_symmetric: "symmetric m (four_diagonal m c)"
  by (auto simp: symmetric_def at2_four_diagonal)

lemma four_diagonal_sqrt:
  "sqrt_diagonal (four_diagonal m c) = Inr (matrix_of m m (\<lambda>i j. if i = j then 2 else 0))"
proof -
  have "matrix_of m m (\<lambda>i j. if i = j then sqrt (at2 (four_diagonal m c) i i) else 0) =
        matrix_of m m (\<lambda>i j. if i = j then 2 else 0)"
    by (rule matrix_of_cong) (simp add: at2_four_diagonal)
  then show ?thesis
    using sqrt_diagonal_square[OF four_diagonal_square, of m c] by simp
qed

lemma diagonal_inv_value:
  assumes "\<And>i. i < m \<Longrightarrow> d i \<noteq> 0"
  shows "diagonal_inv (matrix_of m m (\<lambda>i j. if i = j then d i else 0)) =
           Inr (matrix_of m m (\<lambda>i j. if i = j then 1 / d i else 0))"
proof -
  have "list_all (\<lambda>i. at2 (matrix_of m m (\<lambda>i j. if i = j then d i else 0)) i i \<noteq> 0) [0 ..< m]"
    using assms by (simp add: list_all_iff at2_matrix_of)
  moreover have "matrix_of m m (\<lambda>i j. if i = j
        then 1 / at2 (matrix_of m m (\<lambda>i j. if i = j then d i else 0)) i i else 0) =
      matrix_of m m (\<lambda>i j. if i = j then 1 / d i else 0)"
    by (rule matrix_of_cong) (simp add: at2_matrix_of)
  ultimately show ?thesis by (simp add: diagonal_inv_def)
qed

lemma diagonal_inv_right_inverse:
  assumes "\<And>i. i < m \<Longrightarrow> d i \<noteq> 0"
  shows "np_matmul (matrix_of m m (\<lambda>i j. if i = j then d i else 0))
           (matrix_of m m (\<lambda>i j. if i = j then 1 / d i else 0)) = Inr (identity m)"
proof -
  have "matrix_of m m (\<lambda>i j. \<Sum>l<m. at2 (matrix_of m m (\<lambda>i j. if i = j then d i else 0)) i l *
            at2 (matrix_of m m (\<lambda>i j. if i = j then 1 / d i else 0)) l j) = identity m"
    unfolding identity_def
  proof (rule matrix_of_cong)
    fix i j assume ij: "i < m" "j < m"
    have "(\<Sum>l<m. at2 (matrix_of m m (\<lambda>i j. if i = j then d i else 0)) i l *
            at2 (matrix_of m m (\<lambda>i j. if i = j then 1 / d i else 0)) l j) =
          (\<Sum>l<m. (if i = l then d i else 0) * (if l = j then 1 / d l else 0))"
      by (rule sum.cong[OF refl]) (simp add: at2_matrix_of ij)
    also have "\<dots> = d i * (if i = j then 1 / d i else 0)"
      using ij by (simp add: sum_pick_left)
    also have "\<dots> = (if i = j then 1 else 0)"
      using assms[OF ij(1)] by auto
    finally show "(\<Sum>l<m. at2 (matrix_of m m (\<lambda>i j. if i = j then d i else 0)) i l *
            at2 (matrix_of m m (\<lambda>i j. if i = j then 1 / d i else 0)) l j) = (if i = j then 1 else 0)" .
  qed
  then show ?thesis by (simp add: np_matmul_square)
qed

lemma quad_form_2:
  "quad_form 2 a x = x 0 * at2 a 0 0 * x 0 + x 0 * at2 a 0 1 * x 1 + (x 1 * at2 a 1 0 * x 0 + x 1 * at2 a 1 1 * x 1)"
  by (simp add: quad_form_def numeral_2_eq_2)

lemma four_one_positive_definite: "positive_definite 2 (four_diagonal 2 1)"
  unfolding positive_definite_def
proof (intro allI impI)
  fix x :: "nat \<Rightarrow> real"
  assume "\<exists>i<2. x i \<noteq> 0"
  then have nz: "x 0 \<noteq> 0 \<or> x 1 \<noteq> 0"
    by (auto simp: less_2_cases_iff)
  have "quad_form 2 (four_diagonal 2 1) x = 3 * (x 0)\<^sup>2 + 3 * (x 1)\<^sup>2 + (x 0 + x 1)\<^sup>2"
    by (simp add: quad_form_2 at2_four_diagonal power2_eq_square algebra_simps)
  moreover from nz have "0 < 3 * (x 0)\<^sup>2 + 3 * (x 1)\<^sup>2"
    by (auto intro: add_pos_nonneg add_nonneg_pos)
  ultimately show "0 < quad_form 2 (four_diagonal 2 1) x"
    by (simp add: add_pos_nonneg)
qed

lemma small_spd_value:
  "make_spd_matrix small_lib 2 1 (seed_state small_lib 0) = (Inr (four_diagonal 2 1), 0)"
  by (simp add: small_lib_def small_spd_def)

lemma small_inv_value:
  "linalg_inv small_lib (matrix_of m m (\<lambda>i j. if i = j then 2 else 0)) =
     Inr (matrix_of m m (\<lambda>i j. if i = j then 1 / 2 else 0))"
  using diagonal_inv_value[of m "\<lambda>i. 2"] by (simp add: small_lib_simps)

lemma small_inv_right:
  "np_matmul (matrix_of m m (\<lambda>i j. if i = j then 2 else 0))
     (matrix_of m m (\<lambda>i j. if i = j then 1 / 2 else 0)) = Inr (identity m)"
  using diagonal_inv_right_inverse[of m "\<lambda>i. 2"] by simp

lemma small_RandCorr_value:
  "fst (RandCorr small_lib 2 1 s) = Inr (correlation_of 2 (four_diagonal 2 1))"
proof (rule RandCorr_result[OF small_spd_value four_diagonal_square _ four_diagonal_sqrt
      small_inv_value square_matrix_of small_inv_right])
  fix i :: nat assume "i < 2"
  then show "0 < at2 (four_diagonal 2 1) i i" by (simp add: at2_four_diagonal)
qed

lemma four_diagonal_unit: "unit_diagonal m (correlation_of m (four_diagonal m c))"
  by (rule correlation_unit_diagonal) (simp add: at2_four_diagonal)

lemma frame_small: "\<forall>n r g. snd (make_spd_matrix small_lib n r g) = g"
  by (simp add: small_lib_simps small_spd_def)

text \<open>
  Claim C5. When the SPD generator returns a symmetric positive-definite matrix \<open>V\<close>
  and the library inverts the diagonal matrix \<open>D\<close> of line 431, \<open>RandCorr\<close> returns a
  square symmetric matrix with unit diagonal all of whose eigenvalues are positive.
\<close>

theorem RandCorr_correlation_matrix:
  assumes "make_spd_matrix lib n seed (seed_state lib 0) = (Inr V, g)"
    and "square_matrix m V" and "symmetric m V" and "positive_definite m V"
    and "sqrt_diagonal V = Inr D" and "linalg_inv lib D = Inr Dinv"
    and "square_matrix m Dinv" and "np_matmul D Dinv = Inr (identity m)"
  shows "\<exists>C. fst (RandCorr lib n seed s) = Inr C \<and> square_matrix m C \<and> symmetric m C \<and>
           unit_diagonal m C \<and> (\<forall>lam x. eigenpair m C lam x \<longrightarrow> 0 < lam)"
proof -
  have pos: "0 < at2 V i i" if "i < m" for i
    using assms(4) that by (rule positive_definite_diagonal)
  have "fst (RandCorr lib n seed s) = Inr (correlation_of m V)"
    using assms(1,2) pos assms(5-8) by (rule RandCorr_result)
  moreover have "symmetric m (correlation_of m V)"
    using assms(3) by (rule correlation_symmetric)
  moreover have "unit_diagonal m (correlation_of m V)"
    using pos by (rule correlation_unit_diagonal)
  moreover have "\<forall>lam x. eigenpair m (correlation_of m V) lam x \<longrightarrow> 0 < lam"
    using correlation_eigenvalues_positive[OF assms(4)] by blast
  ultimately show ?thesis using correlation_square by blast
qed

theorem RandCorr_correlation_matrix_witness:
  "make_spd_matrix small_lib 2 1 (seed_state small_lib 0) = (Inr (four_diagonal 2 1), 0) \<and>
   square_matrix 2 (four_diagonal 2 1) \<and> symmetric 2 (four_diagonal 2 1) \<and>
   positive_definite 2 (four_diagonal 2 1) \<and>
   sqrt_diagonal (four_diagonal 2 1) = Inr (matrix_of 2 2 (\<lambda>i j. if i = j then 2 else 0)) \<and>
   linalg_inv small_lib (matrix_of 2 2 (\<lambda>i j. if i = j then 2 else 0)) =
     Inr (matrix_of 2 2 (\<lambda>i j. if i = j then 1 / 2 else 0)) \<and>
   square_matrix 2 (matrix_of 2 2 (\<lambda>i j. if i = j then 1 / 2 else 0)) \<and>
   np_matmul (matrix_of 2 2 (\<lambda>i j. if i = j then 2 else 0))
     (matrix_of 2 2 (\<lambda>i j. if i = j then 1 / 2 else 0)) = Inr (identity 2) \<and>
   (\<exists>C. fst (RandCorr small_lib 2 1 fresh_globals) = Inr C \<and> square_matrix 2 C \<and> symmetric 2 C \<and>
        unit_diagonal 2 C \<and> (\<forall>lam x. eigenpair 2 C lam x \<longrightarrow> 0 < lam))"
  using small_spd_value four_diagonal_square[of 2 1] four_diagonal_symmetric[of 2 1]
    four_one_positive_definite four_diagonal_sqrt[of 2 1] small_inv_value[of 2]
    square_matrix_of[of 2] small_inv_right[of 2]
    RandCorr_correlation_matrix[OF small_spd_value four_diagonal_square four_diagonal_symmetric
      four_one_positive_definite four_diagonal_sqrt small_inv_value square_matrix_of small_inv_right,
      of fresh_globals]
  by (intro conjI)

lemma RandCorr_reseed_free:
  assumes "\<forall>n r g g'. fst (make_spd_matrix lib n r g) = fst (make_spd_matrix lib n r g')"
    and "make_spd_matrix lib' = make_spd_matrix lib" and "linalg_inv lib' = linalg_inv lib"
  shows "fst (RandCorr lib' n seed s') = fst (RandCorr lib n seed s)"
proof -
  from assms(1) have "fst (make_spd_matrix lib n seed (seed_state lib' 0)) =
      fst (make_spd_matrix lib n seed (seed_state lib 0))" by blast
  then show ?thesis by (auto simp: RandCorr_fst assms(2,3) split: sum.splits)
qed

lemma small_spd_ignores_generator:
  "\<forall>n r g g'. fst (make_spd_matrix small_lib n r g) = fst (make_spd_matrix small_lib n r g')"
  by (simp add: small_lib_simps small_spd_def)

lemma any_reseed_RandCorr_value:
  "fst (RandCorr (small_lib\<lparr>seed_state := f\<rparr>) 2 1 s) = Inr (correlation_of 2 (four_diagonal 2 1))"
proof (rule RandCorr_result[OF _ four_diagonal_square _ four_diagonal_sqrt
      _ square_matrix_of small_inv_right])
  show "make_spd_matrix (small_lib\<lparr>seed_state := f\<rparr>) 2 1 (seed_state (small_lib\<lparr>seed_state := f\<rparr>) 0) =
      (Inr (four_diagonal 2 1), f 0)"
    by (simp add: small_lib_def small_spd_def)
next
  fix i :: nat assume "i < 2"
  then show "0 < at2 (four_diagonal 2 1) i i" by (simp add: at2_four_diagonal)
next
  show "linalg_inv (small_lib\<lparr>seed_state := f\<rparr>) (matrix_of 2 2 (\<lambda>i j. if i = j then 2 else 0)) =
     Inr (matrix_of 2 2 (\<lambda>i j. if i = j then 1 / 2 else 0))"
    using small_inv_value[of 2] by simp
qed

text \<open>
  Claim C8, as amended. When the SPD generator, given its own seed, returns the same matrix
  whatever the global generator's state is, the matrix \<open>RandCorr\<close> returns is the same
  whatever state the seeding with 0 installs and whatever the global state was before:
  it is determined by the size and the caller's seed.
\<close>

theorem RandCorr_ignores_global_seed:
  assumes "\<forall>n r g g'. fst (make_spd_matrix lib n r g) = fst (make_spd_matrix lib n r g')"
    and "make_spd_matrix lib' = make_spd_matrix lib" and "linalg_inv lib' = linalg_inv lib"
  shows "fst (RandCorr lib' n seed s') = fst (RandCorr lib n seed s)"
  using assms by (rule RandCorr_reseed_free)


theorem RandCorr_ignores_global_seed_witness:
  "(\<forall>n r g g'. fst (make_spd_matrix small_lib n r g) = fst (make_spd_matrix small_lib n r g')) \<and>
   make_spd_matrix reseeded_lib = make_spd_matrix small_lib \<and>
   linalg_inv reseeded_lib = linalg_inv small_lib \<and>
   seed_state reseeded_lib 0 \<noteq> seed_state small_lib 0 \<and>
   fst (RandCorr reseeded_lib 2 1 (fresh_globals\<lparr>np_rng := 7\<rparr>)) =
     fst (RandCorr small_lib 2 1 fresh_globals)"
proof -
  have h2: "make_spd_matrix reseeded_lib = make_spd_matrix small_lib"
    and h3: "linalg_inv reseeded_lib = linalg_inv small_lib"
    and h4: "seed_state reseeded_lib 0 \<noteq> seed_state small_lib 0"
    by (simp_all add: reseeded_lib_def small_lib_def)
  from small_spd_ignores_generator h2 h3 h4
    RandCorr_ignores_global_seed[OF small_spd_ignores_generator h2 h3, of 2 1
      "fresh_globals\<lparr>np_rng := 7\<rparr>" fresh_globals]
  show ?thesis by (intro conjI)
qed


text \<open>With an SPD generator that ignores the global generator, no state installed by the
  reseeding changes the matrix returned for size 2 and seed 1.\<close>

theorem reseed_never_changes_matrix_counterexample:
  "\<forall>f s. fst (RandCorr (small_lib\<lparr>seed_state := f\<rparr>) 2 1 s) =
           fst (RandCorr small_lib 2 1 fresh_globals)"
  by (simp add: any_reseed_RandCorr_value small_RandCorr_value)


section \<open>The global generator after \<open>RandCorr\<close> and \<open>RandCov\<close>\<close>

lemma RandCov_snd:
  "snd (RandCov lib std seed s) =
     (if shape std = [] then s
      else s\<lparr>np_rng := snd (make_spd_matrix lib (int (hd (shape std))) seed (seed_state lib 0))\<rparr>)"
  by (cases "shape std")
     (simp_all add: RandCov_def seq_alt lift_def py_len_def from_lib_def RandCorr_snd split: sum.splits)

text \<open>
  Claim C10. \<open>RandCorr\<close> reseeds numpy's global generator with 0 whatever its
  arguments are, and so does \<open>RandCov\<close> on an array that has a length. When the SPD
  generator, given its own seed, leaves the global generator alone, the state left behind
  is the one seed 0 installs: it is the same for every caller's seed and every earlier
  state, also when the call ends in an exception.
\<close>

theorem RandCorr_leaves_seed_zero_state:
  assumes "\<forall>n r g. snd (make_spd_matrix lib n r g) = g" and "shape std \<noteq> []"
  shows "np_rng (snd (RandCorr lib n seed s)) = seed_state lib 0 \<and>
         np_rng (snd (RandCorr lib n seed s)) = np_rng (snd (RandCorr lib n seed' s')) \<and>
         np_rng (snd (RandCov lib std seed s)) = seed_state lib 0 \<and>
         np_rng (snd (RandCov lib std seed s)) = np_rng (snd (RandCov lib std seed' s'))"
  using assms by (simp add: RandCorr_snd RandCov_snd)

theorem RandCorr_leaves_seed_zero_state_witness:
  "(\<forall>n r g. snd (make_spd_matrix small_lib n r g) = g) \<and>
   shape \<lparr>shape = [2], data = [1, 3]\<rparr> \<noteq> [] \<and>
   np_rng (snd (RandCorr small_lib 2 5 fresh_globals)) = seed_state small_lib 0 \<and>
   np_rng (snd (RandCorr small_lib 2 5 fresh_globals)) =
     np_rng (snd (RandCorr small_lib 2 6 (fresh_globals\<lparr>np_rng := 9\<rparr>))) \<and>
   np_rng (snd (RandCov small_lib \<lparr>shape = [2], data = [1, 3]\<rparr> 5 fresh_globals)) =
     seed_state small_lib 0 \<and>
   np_rng (snd (RandCov small_lib \<lparr>shape = [2], data = [1, 3]\<rparr> 5 fresh_globals)) =
     np_rng (snd (RandCov small_lib \<lparr>shape = [2], data = [1, 3]\<rparr> 6
       (fresh_globals\<lparr>np_rng := 9\<rparr>)))"
proof -
  have h: "shape \<lparr>shape = [2], data = [1, 3]\<rparr> \<noteq> []" by simp
  from frame_small h
    RandCorr_leaves_seed_zero_state[OF frame_small h, of 2 5 fresh_globals 6
      "fresh_globals\<lparr>np_rng := 9\<rparr>"]
  show ?thesis by (intro conjI) simp_all
qed

section \<open>Random covariance matrices\<close>

lemma RandCov_fst:
  assumes "shape std = [m]" and "fst (RandCorr lib (int m) seed s) = Inr C"
  shows "fst (RandCov lib std seed s) =
           (case np_diag std of Inl e \<Rightarrow> Inl (Library e) | Inr D \<Rightarrow> from_lib (sandwich D C))"
  using assms
  by (simp add: RandCov_def seq_alt py_len_def from_lib_def lift_def split: sum.splits)

text \<open>
  Claim C6. For a vector \<open>std\<close> of length \<open>m\<close>, \<open>RandCov\<close> returns the product
  \<open>D C D\<close> of the diagonal matrix \<open>D\<close> of \<open>std\<close> and the matrix \<open>C\<close> that
  \<open>RandCorr\<close> returns for size \<open>m\<close>; when \<open>C\<close> has unit diagonal, the diagonal of
  the result is \<open>std\<close> squared.
\<close>

theorem RandCov_scaled_correlation:
  assumes "shape std = [m]" and "wf_array std"
    and "fst (RandCorr lib (int m) seed s) = Inr C"
    and "square_matrix m C" and "unit_diagonal m C"
  shows "\<exists>D V. np_diag std = Inr D \<and> sandwich D C = Inr V \<and>
           fst (RandCov lib std seed s) = Inr V \<and> square_matrix m V \<and>
           (\<forall>i<m. at2 V i i = (data std ! i)\<^sup>2)"
proof -
  define D where "D = matrix_of m m (\<lambda>i j. if i = j then data std ! i else 0)"
  define V where "V = matrix_of m m (\<lambda>i j. data std ! i * at2 C i j * data std ! j)"
  have d: "np_diag std = Inr D"
    using assms(1) by (simp add: D_def np_diag_vector)
  from assms(4) have shC: "shape C = [m, m]" by (simp add: square_matrix_def)
  have sw: "sandwich D C = Inr V"
    unfolding V_def
    by (rule sandwich_diagonal[OF _ shC]) (simp_all add: D_def at2_matrix_of)
  have r: "fst (RandCov lib std seed s) = Inr V"
    using RandCov_fst[OF assms(1,3)] d sw by (simp add: from_lib_def)
  have "at2 V i i = (data std ! i)\<^sup>2" if "i < m" for i
    using that assms(5) by (simp add: V_def at2_matrix_of unit_diagonal_def power2_eq_square)
  moreover have "square_matrix m V" by (simp add: V_def)
  ultimately show ?thesis using d sw r by blast
qed

theorem RandCov_scaled_correlation_witness:
  "shape \<lparr>shape = [2], data = [1, 3]\<rparr> = [2] \<and> wf_array \<lparr>shape = [2], data = [1, 3]\<rparr> \<and>
   fst (RandCorr small_lib (int 2) 1 fresh_globals) = Inr (correlation_of 2 (four_diagonal 2 1)) \<and>
   square_matrix 2 (correlation_of 2 (four_diagonal 2 1)) \<and>
   unit_diagonal 2 (correlation_of 2 (four_diagonal 2 1)) \<and>
   (\<exists>D V. np_diag \<lparr>shape = [2], data = [1, 3]\<rparr> = Inr D \<and>
      sandwich D (correlation_of 2 (four_diagonal 2 1)) = Inr V \<and>
      fst (RandCov small_lib \<lparr>shape = [2], data = [1, 3]\<rparr> 1 fresh_globals) = Inr V \<and>
      square_matrix 2 V \<and> (\<forall>i<2. at2 V i i = (data \<lparr>shape = [2], data = [1, 3]\<rparr> ! i)\<^sup>2))"
proof -
  have h1: "shape \<lparr>shape = [2], data = [1, 3]\<rparr> = [2]" by simp
  have h2: "wf_array \<lparr>shape = [2], data = [1, 3]\<rparr>" by (simp add: wf_array_def)
  have h3: "fst (RandCorr small_lib (int 2) 1 fresh_globals) = Inr (correlation_of 2 (four_diagonal 2 1))"
    using small_RandCorr_value[of fresh_globals] by simp
  note h4 = correlation_square[of 2 "four_diagonal 2 1"]
  note h5 = four_diagonal_unit[of 2 1]
  from h1 h2 h3 h4 h5 RandCov_scaled_correlation[OF h1 h2 h3 h4 h5] show ?thesis
    by (intro conjI)
qed

section \<open>The positive-definiteness check\<close>

lemma sum_two: "(\<Sum>j<2. f j) = f 0 + f (1::nat)" for f :: "nat \<Rightarrow> complex"
  by (simp add: numeral_2_eq_2)

lemma at2_literal:
  "at2 \<lparr>shape = [2, 2], data = [a, b, c, d]\<rparr> 0 0 = a"
  "at2 \<lparr>shape = [2, 2], data = [a, b, c, d]\<rparr> 0 1 = b"
  "at2 \<lparr>shape = [2, 2], data = [a, b, c, d]\<rparr> 1 0 = c"
  "at2 \<lparr>shape = [2, 2], data = [a, b, c, d]\<rparr> 1 1 = d"
  "at2 \<lparr>shape = [2, 2], data = [a, b, c, d]\<rparr> 0 (Suc 0) = b"
  "at2 \<lparr>shape = [2, 2], data = [a, b, c, d]\<rparr> (Suc 0) 0 = c"
  "at2 \<lparr>shape = [2, 2], data = [a, b, c, d]\<rparr> (Suc 0) (Suc 0) = d"
  by (simp_all add: at2_def numeral_2_eq_2 numeral_3_eq_3)

lemma eigenvalue_2:
  "eigenvalue 2 \<lparr>shape = [2, 2], data = [a, b, c, d]\<rparr> z =
     (\<exists>v0 v1. (v0 \<noteq> 0 \<or> v1 \<noteq> 0) \<and>
        of_real a * v0 + of_real b * v1 = z * v0 \<and> of_real c * v0 + of_real d * v1 = z * v1)"
proof
  assume "eigenvalue 2 \<lparr>shape = [2, 2], data = [a, b, c, d]\<rparr> z"
  then obtain v :: "nat \<Rightarrow> complex" where nz: "\<exists>i<2. v i \<noteq> 0"
    and eq: "\<forall>i<2. (\<Sum>j<2. of_real (at2 \<lparr>shape = [2, 2], data = [a, b, c, d]\<rparr> i j) * v j) = z * v i"
    unfolding eigenvalue_def by blast
  from nz have "v 0 \<noteq> 0 \<or> v 1 \<noteq> 0" by (auto simp: less_2_cases_iff)
  moreover from eq[rule_format, of 0] have "of_real a * v 0 + of_real b * v 1 = z * v 0"
    by (simp add: sum_two at2_literal)
  moreover from eq[rule_format, of 1] have "of_real c * v 0 + of_real d * v 1 = z * v 1"
    by (simp add: sum_two at2_literal)
  ultimately show "\<exists>v0 v1. (v0 \<noteq> 0 \<or> v1 \<noteq> 0) \<and>
        of_real a * v0 + of_real b * v1 = z * v0 \<and> of_real c * v0 + of_real d * v1 = z * v1"
    by blast
next
  assume "\<exists>v0 v1. (v0 \<noteq> 0 \<or> v1 \<noteq> 0) \<and>
        of_real a * v0 + of_real b * v1 = z * v0 \<and> of_real c * v0 + of_real d * v1 = z * v1"
  then obtain v0 v1 where nz: "v0 \<noteq> 0 \<or> v1 \<noteq> 0"
    and e0: "of_real a * v0 + of_real b * v1 = z * v0"
    and e1: "of_real c * v0 + of_real d * v1 = z * v1" by blast
  define v :: "nat \<Rightarrow> complex" where "v = (\<lambda>i. if i = 0 then v0 else v1)"
  have "\<exists>i<2. v i \<noteq> 0"
  proof (cases "v0 = 0")
    case True
    with nz have "v 1 \<noteq> 0" by (simp add: v_def)
    then show ?thesis by (intro exI[of _ 1]) simp
  next
    case False
    then have "v 0 \<noteq> 0" by (simp add: v_def)
    then show ?thesis by (intro exI[of _ 0]) simp
  qed
  moreover have "\<forall>i<2. (\<Sum>j<2. of_real (at2 \<lparr>shape = [2, 2], data = [a, b, c, d]\<rparr> i j) * v j) = z * v i"
    using e0 e1 by (auto simp: less_2_cases_iff sum_two at2_literal v_def)
  ultimately show "eigenvalue 2 \<lparr>shape = [2, 2], data = [a, b, c, d]\<rparr> z"
    unfolding eigenvalue_def by blast
qed

lemma diag_spectrum:
  "eigenvalue 2 \<lparr>shape = [2, 2], data = [1, 0, 0, -1]\<rparr> z = (z = 1 \<or> z = -1)"
proof
  assume "eigenvalue 2 \<lparr>shape = [2, 2], data = [1, 0, 0, -1]\<rparr> z"
  then obtain v0 v1 :: complex where nz: "v0 \<noteq> 0 \<or> v1 \<noteq> 0"
    and e0: "v0 = z * v0" and e1: "- v1 = z * v1"
    by (auto simp: eigenvalue_2)
  show "z = 1 \<or> z = -1"
  proof (cases "v0 = 0")
    case False
    with e0 show ?thesis by simp
  next
    case True
    with nz have "v1 \<noteq> 0" by simp
    with e1 have "z = -1" by (metis mult_cancel_right mult_minus1)
    then show ?thesis by simp
  qed
next
  assume "z = 1 \<or> z = -1"
  then show "eigenvalue 2 \<lparr>shape = [2, 2], data = [1, 0, 0, -1]\<rparr> z"
  proof
    assume z: "z = 1"
    have "((1::complex) \<noteq> 0 \<or> (0::complex) \<noteq> 0) \<and>
        of_real 1 * 1 + of_real 0 * 0 = z * (1::complex) \<and>
        of_real 0 * 1 + of_real (- 1) * 0 = z * (0::complex)"
      by (simp add: z)
    then show ?thesis unfolding eigenvalue_2 by blast
  next
    assume z: "z = -1"
    have "((0::complex) \<noteq> 0 \<or> (1::complex) \<noteq> 0) \<and>
        of_real 1 * 0 + of_real 0 * 1 = z * (0::complex) \<and>
        of_real 0 * 0 + of_real (- 1) * 1 = z * (1::complex)"
      by (simp add: z)
    then show ?thesis unfolding eigenvalue_2 by blast
  qed
qed

lemma rotation_like_eigenvalue:
  "eigenvalue 2 \<lparr>shape = [2, 2], data = [1, -1, 1, 1]\<rparr> (Complex 1 1)"
proof -
  have "((1::complex) \<noteq> 0 \<or> - \<i> \<noteq> 0) \<and>
        of_real 1 * 1 + of_real (- 1) * (- \<i>) = Complex 1 1 * 1 \<and>
        of_real 1 * 1 + of_real 1 * (- \<i>) = Complex 1 1 * (- \<i>)"
    by (simp add: complex_eq_iff)
  then show ?thesis unfolding eigenvalue_2 by blast
qed

lemma small_eigvals_values:
  "linalg_eigvals small_lib \<lparr>shape = [2, 2], data = [1, 0, 0, -1]\<rparr> = Inr [1, -1]"
  "linalg_eigvals small_lib \<lparr>shape = [2, 2], data = [1, 0, 0, 1]\<rparr> = Inr [1, 1]"
  "linalg_eigvals small_lib \<lparr>shape = [2, 2], data = [1, -1, 1, 1]\<rparr> = Inr [Complex 1 1, Complex 1 (-1)]"
  "linalg_eigvals small_lib \<lparr>shape = [2, 2], data = [1, 2, 2, 1]\<rparr> = Inr [3, -1]"
  by (simp_all add: small_lib_simps small_eigvals_def quadratic_eigvals_def at2_literal Let_def
        complex_eq_iff)

lemma is_pos_def_values:
  "is_pos_def small_lib \<lparr>shape = [2, 2], data = [1, 0, 0, -1]\<rparr> = Inr False"
  "is_pos_def small_lib \<lparr>shape = [2, 2], data = [1, 0, 0, 1]\<rparr> = Inr True"
  "is_pos_def small_lib \<lparr>shape = [2, 2], data = [1, -1, 1, 1]\<rparr> = Inr True"
  "is_pos_def small_lib \<lparr>shape = [2, 3], data = [1, 2, 3, 4, 5, 6]\<rparr> =
     Inl (Exception ''Input to is_pos_def must be a square matrix.'')"
  by (simp_all add: is_pos_def_def small_eigvals_values gt_zero_def)

lemma diag_real_spectrum: "real_spectrum 2 \<lparr>shape = [2, 2], data = [1, 0, 0, -1]\<rparr>"
  unfolding real_spectrum_def by (auto simp: diag_spectrum)

text \<open>
  Claim C7, as amended. \<open>is_pos_def\<close> raises its validation error exactly when the input
  is not two-dimensional or not square. On a square matrix whose eigenvalues the library
  returns, the result is whether every eigenvalue is above 0 in numpy's order of complex
  numbers (positive real part, or real part 0 and positive imaginary part); when all
  eigenvalues are real, as for a symmetric matrix, that is whether all of them are
  strictly positive.
\<close>

theorem is_pos_def_spec:
  "((\<exists>msg. is_pos_def lib x = Inl (Exception msg)) =
      (length (shape x) \<noteq> 2 \<or> shape x ! 0 \<noteq> shape x ! 1)) \<and>
   (shape x = [n, n] \<and> linalg_eigvals lib x = Inr ev \<and> (\<forall>z. (z \<in> set ev) = eigenvalue n x z) \<longrightarrow>
      is_pos_def lib x = Inr (\<forall>z. eigenvalue n x z \<longrightarrow> gt_zero z)) \<and>
   (shape x = [n, n] \<and> linalg_eigvals lib x = Inr ev \<and> (\<forall>z. (z \<in> set ev) = eigenvalue n x z) \<and>
      real_spectrum n x \<longrightarrow>
      is_pos_def lib x = Inr (\<forall>z. eigenvalue n x z \<longrightarrow> 0 < Re z))"
proof (intro conjI impI)
  show "(\<exists>msg. is_pos_def lib x = Inl (Exception msg)) =
      (length (shape x) \<noteq> 2 \<or> shape x ! 0 \<noteq> shape x ! 1)"
    by (auto simp: is_pos_def_def split: sum.splits)
next
  assume "shape x = [n, n] \<and> linalg_eigvals lib x = Inr ev \<and> (\<forall>z. (z \<in> set ev) = eigenvalue n x z)"
  then show "is_pos_def lib x = Inr (\<forall>z. eigenvalue n x z \<longrightarrow> gt_zero z)"
    by (simp add: is_pos_def_def list_all_iff Ball_def)
next
  assume h: "shape x = [n, n] \<and> linalg_eigvals lib x = Inr ev \<and> (\<forall>z. (z \<in> set ev) = eigenvalue n x z) \<and>
      real_spectrum n x"
  then have "(\<forall>z. eigenvalue n x z \<longrightarrow> gt_zero z) = (\<forall>z. eigenvalue n x z \<longrightarrow> 0 < Re z)"
    by (auto simp: gt_zero_def real_spectrum_def complex_is_Real_iff)
  with h show "is_pos_def lib x = Inr (\<forall>z. eigenvalue n x z \<longrightarrow> 0 < Re z)"
    by (simp add: is_pos_def_def list_all_iff Ball_def)
qed

theorem is_pos_def_spec_witness:
  "shape \<lparr>shape = [2, 2], data = [1, 0, 0, -1]\<rparr> = [2, 2] \<and>
   linalg_eigvals small_lib \<lparr>shape = [2, 2], data = [1, 0, 0, -1]\<rparr> = Inr [1, -1] \<and>
   (\<forall>z. (z \<in> set [1, -1]) = eigenvalue 2 \<lparr>shape = [2, 2], data = [1, 0, 0, -1]\<rparr> z) \<and>
   real_spectrum 2 \<lparr>shape = [2, 2], data = [1, 0, 0, -1]\<rparr> \<and>
   is_pos_def small_lib \<lparr>shape = [2, 2], data = [1, 0, 0, -1]\<rparr> =
     Inr (\<forall>z. eigenvalue 2 \<lparr>shape = [2, 2], data = [1, 0, 0, -1]\<rparr> z \<longrightarrow> 0 < Re z) \<and>
   is_pos_def small_lib \<lparr>shape = [2, 2], data = [1, 0, 0, -1]\<rparr> = Inr False \<and>
   is_pos_def small_lib \<lparr>shape = [2, 2], data = [1, 0, 0, 1]\<rparr> = Inr True \<and>
   (\<exists>msg. is_pos_def small_lib \<lparr>shape = [2, 3], data = [1, 2, 3, 4, 5, 6]\<rparr> = Inl (Exception msg))"
proof -
  have h1: "shape \<lparr>shape = [2, 2], data = [1, 0, 0, -1]\<rparr> = [2, 2]" by simp
  note h2 = small_eigvals_values(1)
  have h3: "\<forall>z. (z \<in> set [1, -1]) = eigenvalue 2 \<lparr>shape = [2, 2], data = [1, 0, 0, -1]\<rparr> z"
    by (auto simp: diag_spectrum)
  note h4 = diag_real_spectrum
  from is_pos_def_spec[of small_lib "\<lparr>shape = [2, 2], data = [1, 0, 0, -1]\<rparr>" 2 "[1, -1]"] h1 h2 h3 h4
  have c: "is_pos_def small_lib \<lparr>shape = [2, 2], data = [1, 0, 0, -1]\<rparr> =
     Inr (\<forall>z. eigenvalue 2 \<lparr>shape = [2, 2], data = [1, 0, 0, -1]\<rparr> z \<longrightarrow> 0 < Re z)"
    by blast
  from h1 h2 h3 h4 c is_pos_def_values(1,2,4) show ?thesis
    by (intro conjI) simp_all
qed

text \<open>The matrix \<open>[[1,-1],[1,1]]\<close> has the eigenvalues \<open>1 + i\<close> and \<open>1 - i\<close>, neither of
  them a real number, and \<open>is_pos_def\<close> answers true for it.\<close>

theorem is_pos_def_complex_counterexample:
  "linalg_eigvals small_lib \<lparr>shape = [2, 2], data = [1, -1, 1, 1]\<rparr> =
     Inr [Complex 1 1, Complex 1 (-1)] \<and>
   eigenvalue 2 \<lparr>shape = [2, 2], data = [1, -1, 1, 1]\<rparr> (Complex 1 1) \<and>
   Complex 1 1 \<notin> \<real> \<and>
   is_pos_def small_lib \<lparr>shape = [2, 2], data = [1, -1, 1, 1]\<rparr> = Inr True"
  using small_eigvals_values(3) rotation_like_eigenvalue is_pos_def_values(3)
  by (simp add: complex_is_Real_iff)

end
